theory Spec2Isabelle
  imports Main "HOL-Library.AList" "HOL-Library.Multiset"
begin

section \<open>Tool contracts (tool\_contracts.py)\<close>

datatype ToolType = CREATOR | ANALYZER | MODIFIER | RETRIEVER | VALIDATOR | EXECUTOR | REPORTER

datatype ToolExecutionStatus = Processing | Complete | Failed

text \<open>A finite Python float, mantissa times two to the exponent. It is only carried around.\<close>

datatype pyfloat = PyFloat int int

text \<open>
  Values of Python type \<open>Any\<close> that travel through the engine are JSON data: the payload of
  a result, the values of a parameter dictionary, the values of an error entry. A dictionary
  is an association list in insertion order.
\<close>

datatype json =
    JNull
  | JBool bool
  | JInt int
  | JFloat pyfloat
  | JStr string
  | JList "json list"
  | JObj "(string \<times> json) list"

type_synonym pydict = "(string \<times> json) list"

text \<open>\<open>datetime\<close>: microseconds on the naive UTC time line.\<close>

type_synonym datetime = int

record UserContextInfo =
  userId :: string
  sessionId :: string

record ContentSummary =
  summary_fields :: "string list"
  recordCount :: int

record SuggestedToolReference =
  toolType :: ToolType
  toolNameHint :: "string option"
  reason :: "string option"
  parameters :: "pydict option"
  outputLabel :: "string option"

record ToolMetadata =
  dataType :: string
  dataSize :: int
  intent :: string
  description :: string
  accessibility :: string
  requiresPostProcessing :: bool
  suggestedTools :: "SuggestedToolReference list"
  contentSummary :: "ContentSummary option"
  confidence :: pyfloat

record ToolResult =
  toolResultId :: string
  toolName :: string
  timestamp :: datetime
  conversationId :: "string option"
  conversationMessageId :: "string option"
  userContext :: "UserContextInfo option"
  metadata :: ToolMetadata
  payload :: json
  stepIndex :: int
  parentToolResultId :: "string option"

text \<open>The property \<open>ToolResult.status\<close>.\<close>

definition status :: "ToolResult \<Rightarrow> ToolExecutionStatus" where
  "status r = (if requiresPostProcessing (metadata r) then Processing else Complete)"

section \<open>Python helpers\<close>

text \<open>An exception object: the name of its class and \<open>str(e)\<close>.\<close>

datatype exn = Exn (exn_type: string) (exn_str: string)

text \<open>Truth value of an \<open>Optional[str]\<close>: \<open>None\<close> and the empty string are false.\<close>

fun truthy_str :: "string option \<Rightarrow> bool" where
  "truthy_str None = False"
| "truthy_str (Some s) = (s \<noteq> [])"

text \<open>Truth value of a JSON value, as Python's \<open>bool(x)\<close>.\<close>

fun truthy :: "json \<Rightarrow> bool" where
  "truthy JNull = False"
| "truthy (JBool b) = b"
| "truthy (JInt i) = (i \<noteq> 0)"
| "truthy (JFloat (PyFloat m e)) = (m \<noteq> 0)"
| "truthy (JStr s) = (s \<noteq> [])"
| "truthy (JList xs) = (xs \<noteq> [])"
| "truthy (JObj kvs) = (kvs \<noteq> [])"

text \<open>\<open>suggestion.parameters or {}\<close>\<close>

fun or_empty :: "pydict option \<Rightarrow> pydict" where
  "or_empty None = []"
| "or_empty (Some d) = d"

text \<open>\<open>d.update(e)\<close> and \<open>{**d, **e}\<close>: a key keeps its first position, a later value wins.\<close>

definition dict_update :: "pydict \<Rightarrow> pydict \<Rightarrow> pydict" where
  "dict_update d e = foldl (\<lambda>acc (k, v). AList.update k v acc) d e"

text \<open>\<open>str(n)\<close> for an integer, in decimal.\<close>

definition digit_char :: "nat \<Rightarrow> char" where
  "digit_char d = char_of (48 + d)"

fun str_nat :: "nat \<Rightarrow> string" where
  "str_nat n = (if n < 10 then [digit_char n] else str_nat (n div 10) @ [digit_char (n mod 10)])"

declare str_nat.simps [simp del]

definition str_int :: "int \<Rightarrow> string" where
  "str_int i = (if i < 0 then CHR ''-'' # str_nat (nat (- i)) else str_nat (nat i))"

section \<open>Tool registry (intent\_classification.py)\<close>

text \<open>
  The fields of \<open>ToolIntent\<close> that the engine reads. The registry
  \<open>INTENT_CLASSIFICATIONS\<close> is the dictionary of the source, in its order.
\<close>

record ToolIntent =
  intent_name :: string
  endpoint :: string
  http_method :: string
  tool_type :: ToolType

definition mk_intent :: "string \<Rightarrow> string \<Rightarrow> string \<Rightarrow> ToolType \<Rightarrow> string \<times> ToolIntent" where
  "mk_intent n e m t = (n, \<lparr>intent_name = n, endpoint = e, http_method = m, tool_type = t\<rparr>)"

definition INTENT_CLASSIFICATIONS :: "(string \<times> ToolIntent) list" where
  "INTENT_CLASSIFICATIONS =
    [mk_intent ''create_repository'' ''/github/create-repo'' ''POST'' CREATOR,
     mk_intent ''initialize_repository'' ''/repos/init'' ''POST'' CREATOR,
     mk_intent ''clone_repository'' ''/repos/clone'' ''POST'' RETRIEVER,
     mk_intent ''create_branch'' ''/repos/create-branch'' ''POST'' CREATOR,
     mk_intent ''list_branches'' ''/github/list-branches/{repo_name}'' ''GET'' RETRIEVER,
     mk_intent ''merge_branches'' ''/repos/merge'' ''POST'' MODIFIER,
     mk_intent ''add_file'' ''/repos/add-file'' ''POST'' CREATOR,
     mk_intent ''add_multiple_files'' ''/repos/add-files'' ''POST'' CREATOR,
     mk_intent ''list_files'' ''/repos/list-files/{repo_path}'' ''GET'' RETRIEVER,
     mk_intent ''read_file'' ''/repos/read-file/{repo_path}/{file_name}'' ''GET'' RETRIEVER,
     mk_intent ''commit_changes'' ''/repos/commit'' ''POST'' EXECUTOR,
     mk_intent ''push_changes'' ''/repos/push'' ''POST'' EXECUTOR,
     mk_intent ''stage_all_changes'' ''/repos/add-all'' ''POST'' MODIFIER,
     mk_intent ''create_issue'' ''/github/create-issue'' ''POST'' CREATOR,
     mk_intent ''create_pull_request'' ''/github/create-pr'' ''POST'' CREATOR,
     mk_intent ''list_repositories'' ''/github/list-repos'' ''GET'' RETRIEVER,
     mk_intent ''setup_credentials'' ''/auth/setup'' ''POST'' MODIFIER,
     mk_intent ''generate_gitignore'' ''/repos/generate-gitignore'' ''POST'' CREATOR,
     mk_intent ''check_status'' ''/repos/status/{repo_path}'' ''GET'' ANALYZER]"

definition get_intent_by_name :: "string \<Rightarrow> ToolIntent option" where
  "get_intent_by_name n = map_of INTENT_CLASSIFICATIONS n"

section \<open>Execution context (tool\_execution\_engine.py)\<close>

record ToolExecutionContext =
  conversation_id :: string
  user_id :: string
  session_id :: string
  execution_id :: string
  start_time :: datetime
  results :: "ToolResult list"
  errors :: "pydict list"
  context_metadata :: pydict

definition add_result :: "ToolExecutionContext \<Rightarrow> ToolResult \<Rightarrow> ToolExecutionContext" where
  "add_result c r = c\<lparr>results := results c @ [r]\<rparr>"

definition add_error :: "ToolExecutionContext \<Rightarrow> pydict \<Rightarrow> ToolExecutionContext" where
  "add_error c e = c\<lparr>errors := errors c @ [e]\<rparr>"

definition get_last_result :: "ToolExecutionContext \<Rightarrow> ToolResult option" where
  "get_last_result c = (if results c \<noteq> [] then Some (last (results c)) else None)"

record execution_summary =
  sum_execution_id :: string
  sum_conversation_id :: string
  sum_start_time :: datetime
  sum_duration :: int
  total_tools_executed :: nat
  sum_errors :: nat
  successful :: bool
  tool_chain :: "string list"

text \<open>\<open>get_execution_summary\<close> reads the clock once; \<open>now\<close> is that reading.\<close>

definition get_execution_summary :: "ToolExecutionContext \<Rightarrow> datetime \<Rightarrow> execution_summary" where
  "get_execution_summary c now =
     \<lparr>sum_execution_id = execution_id c,
      sum_conversation_id = conversation_id c,
      sum_start_time = start_time c,
      sum_duration = now - start_time c,
      total_tools_executed = length (results c),
      sum_errors = length (errors c),
      successful = (length (errors c) = 0),
      tool_chain = map toolName (results c)\<rparr>"

section \<open>The environment of a run\<close>

text \<open>
  What the transport hands back: a status code, the body of the response, and the outcome of
  \<open>ToolResult.model_validate(response.json())\<close> on it, which is either the validated
  result or the exception raised by \<open>json()\<close> or by the validation.
\<close>

record http_response =
  status_code :: int
  text_body :: string
  validated :: "exn + ToolResult"

text \<open>
  The collaborators outside the engine, over a state \<open>'w\<close> of the outside world:
  \<open>api_client.request\<close> (which returns a response or raises), \<open>uuid.uuid4\<close> and
  \<open>datetime.utcnow\<close>. The last field is Python's \<open>dict.update\<close> applied to a list:
  Python reads the list as key/value pairs and raises \<open>TypeError\<close> or \<open>ValueError\<close>
  when an element is not a pair; the keys it stores need not be strings, so its outcome is
  taken from the environment and nothing is assumed about it. The field
  \<open>completion_order\<close> is the event loop: given the outside world and a number of tasks
  run together, the order in which they are started and their transport calls complete; any
  list of events stands for a schedule (see \<open>gather\<close>), so nothing is assumed about it
  either. The transport raises instances of \<open>Exception\<close> only.
\<close>

text \<open>What the event loop does next while the tasks of a \<open>gather\<close> run: it starts the next
  task that has not started, or it delivers the answer that task number \<open>k\<close> awaits.\<close>

datatype sched_event = StartNext | Deliver nat

record 'w env =
  request :: "'w \<Rightarrow> string \<Rightarrow> string \<Rightarrow> pydict \<Rightarrow> (string \<times> string) list
                \<Rightarrow> (exn + http_response) \<times> 'w"
  uuid4 :: "'w \<Rightarrow> string \<times> 'w"
  utcnow :: "'w \<Rightarrow> datetime \<times> 'w"
  update_from_sequence :: "pydict \<Rightarrow> json list \<Rightarrow> exn + pydict"
  completion_order :: "'w \<Rightarrow> nat \<Rightarrow> sched_event list"

text \<open>The records written by \<open>logger.info\<close> and \<open>logger.error\<close> in \<open>execute_tool\<close>.\<close>

datatype log_record =
    Executing string pydict
  | ErrorExecuting string exn

text \<open>The mutable state of a run: the shared context, the log and the outside world.\<close>

record 'w state =
  ctx :: ToolExecutionContext
  logged :: "log_record list"
  world :: "'w"

section \<open>Tool executor\<close>

text \<open>The \<open>except Exception\<close> handler of \<open>execute_tool\<close>.\<close>

definition on_exception :: "string \<Rightarrow> exn \<Rightarrow> 'w state \<Rightarrow> ToolResult option \<times> 'w state" where
  "on_exception tool_name e st =
     (None, st\<lparr>logged := logged st @ [ErrorExecuting tool_name e],
               ctx := add_error (ctx st)
                  [(''tool'', JStr tool_name), (''error'', JStr (exn_str e)),
                   (''type'', JStr (exn_type e))]\<rparr>)"

definition execute_tool ::
  "'w env \<Rightarrow> string \<Rightarrow> pydict \<Rightarrow> 'w state \<Rightarrow> ToolResult option \<times> 'w state" where
  "execute_tool ev tool_name params st0 =
     (let st = st0\<lparr>logged := logged st0 @ [Executing tool_name params]\<rparr> in
      case get_intent_by_name tool_name of
        None \<Rightarrow> on_exception tool_name (Exn ''ValueError'' (''Unknown tool: '' @ tool_name)) st
      | Some i \<Rightarrow>
         (let (u, w1) = uuid4 ev (world st);
              headers = [(''X-Conversation-ID'', conversation_id (ctx st)),
                         (''X-Message-ID'', ''msg-'' @ u),
                         (''X-User-ID'', user_id (ctx st)),
                         (''X-Session-ID'', session_id (ctx st))];
              (response, w2) = request ev w1 (http_method i) (endpoint i) params headers;
              st2 = st\<lparr>world := w2\<rparr>
          in (case response of
               Inl e \<Rightarrow> on_exception tool_name e st2
             | Inr resp \<Rightarrow>
                 if status_code resp = 200 then
                   (case validated resp of
                      Inl e \<Rightarrow> on_exception tool_name e st2
                    | Inr result \<Rightarrow> (Some result, st2\<lparr>ctx := add_result (ctx st2) result\<rparr>))
                 else
                   (None, st2\<lparr>ctx := add_error (ctx st2)
                      [(''tool'', JStr tool_name),
                       (''error'', JStr (''HTTP '' @ str_int (status_code resp))),
                       (''details'', JStr (text_body resp))]\<rparr>))))"

text \<open>
  \<open>execute_tool\<close> once more, on a transport whose call may also end in an exception that
  is not an instance of \<open>Exception\<close> (\<open>asyncio.CancelledError\<close>, \<open>KeyboardInterrupt\<close>):
  the handler \<open>except Exception\<close> does not catch it, and it leaves \<open>execute_tool\<close>
  (\<open>Inl\<close>) with nothing recorded. The transport and \<open>uuid4\<close> are given as functions.
\<close>

datatype transport_event =
    Answers http_response
  | RaisesException exn
  | RaisesBaseException exn

definition returns :: "'a \<times> 's \<Rightarrow> (exn + 'a) \<times> 's" where
  "returns x = (Inr (fst x), snd x)"

definition execute_tool_raising ::
  "('w \<Rightarrow> string \<Rightarrow> string \<Rightarrow> pydict \<Rightarrow> (string \<times> string) list \<Rightarrow> transport_event \<times> 'w)
     \<Rightarrow> ('w \<Rightarrow> string \<times> 'w) \<Rightarrow> string \<Rightarrow> pydict \<Rightarrow> 'w state
     \<Rightarrow> (exn + ToolResult option) \<times> 'w state" where
  "execute_tool_raising call new_uuid tool_name params st0 =
     (let st = st0\<lparr>logged := logged st0 @ [Executing tool_name params]\<rparr> in
      case get_intent_by_name tool_name of
        None \<Rightarrow>
          returns (on_exception tool_name (Exn ''ValueError'' (''Unknown tool: '' @ tool_name)) st)
      | Some i \<Rightarrow>
         (let (u, w1) = new_uuid (world st);
              headers = [(''X-Conversation-ID'', conversation_id (ctx st)),
                         (''X-Message-ID'', ''msg-'' @ u),
                         (''X-User-ID'', user_id (ctx st)),
                         (''X-Session-ID'', session_id (ctx st))];
              (event, w2) = call w1 (http_method i) (endpoint i) params headers;
              st2 = st\<lparr>world := w2\<rparr>
          in (case event of
               RaisesBaseException e \<Rightarrow> (Inl e, st2)
             | RaisesException e \<Rightarrow> returns (on_exception tool_name e st2)
             | Answers resp \<Rightarrow>
                 if status_code resp = 200 then
                   (case validated resp of
                      Inl e \<Rightarrow> returns (on_exception tool_name e st2)
                    | Inr result \<Rightarrow>
                        (Inr (Some result), st2\<lparr>ctx := add_result (ctx st2) result\<rparr>))
                 else
                   (Inr None, st2\<lparr>ctx := add_error (ctx st2)
                      [(''tool'', JStr tool_name),
                       (''error'', JStr (''HTTP '' @ str_int (status_code resp))),
                       (''details'', JStr (text_body resp))]\<rparr>))))"

text \<open>The transport of an environment, whose raises are all instances of \<open>Exception\<close>.\<close>

definition transport_of ::
  "'w env \<Rightarrow> 'w \<Rightarrow> string \<Rightarrow> string \<Rightarrow> pydict \<Rightarrow> (string \<times> string) list \<Rightarrow> transport_event \<times> 'w" where
  "transport_of ev w m e p h =
     (case request ev w m e p h of
        (Inl x, w1) \<Rightarrow> (RaisesException x, w1)
      | (Inr resp, w1) \<Rightarrow> (Answers resp, w1))"

text \<open>
  The two halves of \<open>execute_tool\<close>, before and after its only suspension point, the
  \<open>await\<close> of the transport call. The first half logs the call, looks the tool up and
  issues the request; for an unknown tool it ends the call at once, with the error recorded.
  The second half receives the answer and appends to the context. Between the two, other
  tasks may run.
\<close>

datatype started = Finished "ToolResult option" | Awaiting "exn + http_response"

definition start_tool :: "'w env \<Rightarrow> string \<Rightarrow> pydict \<Rightarrow> 'w state \<Rightarrow> started \<times> 'w state" where
  "start_tool ev tool_name params st0 =
     (let st = st0\<lparr>logged := logged st0 @ [Executing tool_name params]\<rparr> in
      case get_intent_by_name tool_name of
        None \<Rightarrow>
          (case on_exception tool_name (Exn ''ValueError'' (''Unknown tool: '' @ tool_name)) st of
             (r, st1) \<Rightarrow> (Finished r, st1))
      | Some i \<Rightarrow>
         (let (u, w1) = uuid4 ev (world st);
              headers = [(''X-Conversation-ID'', conversation_id (ctx st)),
                         (''X-Message-ID'', ''msg-'' @ u),
                         (''X-User-ID'', user_id (ctx st)),
                         (''X-Session-ID'', session_id (ctx st))];
              (response, w2) = request ev w1 (http_method i) (endpoint i) params headers
          in (Awaiting response, st\<lparr>world := w2\<rparr>)))"

definition finish_tool ::
  "string \<Rightarrow> exn + http_response \<Rightarrow> 'w state \<Rightarrow> ToolResult option \<times> 'w state" where
  "finish_tool tool_name response st2 =
     (case response of
        Inl e \<Rightarrow> on_exception tool_name e st2
      | Inr resp \<Rightarrow>
          if status_code resp = 200 then
            (case validated resp of
               Inl e \<Rightarrow> on_exception tool_name e st2
             | Inr result \<Rightarrow> (Some result, st2\<lparr>ctx := add_result (ctx st2) result\<rparr>))
          else
            (None, st2\<lparr>ctx := add_error (ctx st2)
               [(''tool'', JStr tool_name),
                (''error'', JStr (''HTTP '' @ str_int (status_code resp))),
                (''details'', JStr (text_body resp))]\<rparr>))"

section \<open>Chain executor\<close>

datatype ExecutionStrategy = SEQUENTIAL | PARALLEL | CONDITIONAL | INTERACTIVE

text \<open>\<open>ToolChainExecutor\<close>: its only own attribute is the bound, which \<open>__init__\<close> sets to 10.
  The tool executor it holds is the environment \<open>ev\<close> passed to every function.\<close>

record ToolChainExecutor =
  max_chain_length :: nat

definition ToolChainExecutor_init :: ToolChainExecutor where
  "ToolChainExecutor_init = \<lparr>max_chain_length = 10\<rparr>"

text \<open>\<open>str.lower\<close> on ASCII letters, and the substring test \<open>needle in hay\<close>.\<close>

definition lower_char :: "char \<Rightarrow> char" where
  "lower_char c =
     (let n = (of_char c :: nat) in if 65 \<le> n \<and> n \<le> 90 then char_of (n + 32) else c)"

definition lower :: "string \<Rightarrow> string" where
  "lower s = map lower_char s"

fun starts_with :: "string \<Rightarrow> string \<Rightarrow> bool" where
  "starts_with [] hay = True"
| "starts_with (c # cs) [] = False"
| "starts_with (c # cs) (h # hs) = (c = h \<and> starts_with cs hs)"

fun contains :: "string \<Rightarrow> string \<Rightarrow> bool" where
  "contains needle [] = (needle = [])"
| "contains needle (h # hs) = (starts_with needle (h # hs) \<or> contains needle hs)"

text \<open>The loop of \<open>_execute_sequential\<close>, with its list \<open>results\<close> as accumulator.\<close>

fun sequential_loop ::
  "'w env \<Rightarrow> SuggestedToolReference list \<Rightarrow> ToolResult list \<Rightarrow> 'w state
     \<Rightarrow> ToolResult list \<times> 'w state" where
  "sequential_loop ev [] acc st = (acc, st)"
| "sequential_loop ev (s # rest) acc st =
     (case toolNameHint s of
        None \<Rightarrow> sequential_loop ev rest acc st
      | Some tool_name \<Rightarrow>
          if tool_name = [] then sequential_loop ev rest acc st
          else
            (case execute_tool ev tool_name (or_empty (parameters s)) st of
               (None, st1) \<Rightarrow> sequential_loop ev rest acc st1
             | (Some result, st1) \<Rightarrow>
                 if \<not> requiresPostProcessing (metadata result) then (acc @ [result], st1)
                 else sequential_loop ev rest (acc @ [result]) st1))"

definition execute_sequential ::
  "'w env \<Rightarrow> SuggestedToolReference list \<Rightarrow> 'w state \<Rightarrow> ToolResult list \<times> 'w state" where
  "execute_sequential ev suggested_tools st = sequential_loop ev suggested_tools [] st"

text \<open>The first loop of \<open>_execute_parallel\<close>: one task, a pending call of
  \<open>execute_tool\<close> with its arguments, for each eligible suggestion.\<close>

fun parallel_tasks :: "SuggestedToolReference list \<Rightarrow> (string \<times> pydict) list" where
  "parallel_tasks [] = []"
| "parallel_tasks (s # rest) =
     (if toolType s \<in> set [RETRIEVER, ANALYZER] then
        (case toolNameHint s of
           None \<Rightarrow> parallel_tasks rest
         | Some tool_name \<Rightarrow>
             if tool_name = [] then parallel_tasks rest
             else (tool_name, or_empty (parameters s)) # parallel_tasks rest)
      else parallel_tasks rest)"

text \<open>
  \<open>asyncio.gather\<close>. Each task is a call of \<open>execute_tool\<close>, numbered from 0 in the
  order of the list. The tasks start in that order; a task that has started and awaits its
  answer is resumed when the event loop delivers the answer, in whatever order the answers
  arrive, and only then appends to the shared context. \<open>run_events\<close> follows the events of
  the schedule: \<open>StartNext\<close> runs the first half of the next task, \<open>Deliver k\<close> runs the
  second half of task \<open>k\<close> if it is waiting; an event that does not apply is passed over.
  The state of the run is the list of tasks not yet started, the list of tasks waiting with
  the answer underway, and the list of the values returned so far.
\<close>

fun run_events ::
  "'w env \<Rightarrow> sched_event list \<Rightarrow> (nat \<times> string \<times> pydict) list
     \<Rightarrow> (nat \<times> string \<times> (exn + http_response)) list \<Rightarrow> (nat \<times> ToolResult option) list
     \<Rightarrow> 'w state
     \<Rightarrow> (nat \<times> string \<times> pydict) list \<times> (nat \<times> string \<times> (exn + http_response)) list
         \<times> (nat \<times> ToolResult option) list \<times> 'w state" where
  "run_events ev [] todo waiting returned st = (todo, waiting, returned, st)"
| "run_events ev (StartNext # es) [] waiting returned st =
     run_events ev es [] waiting returned st"
| "run_events ev (StartNext # es) ((k, tool_name, params) # todo) waiting returned st =
     (case start_tool ev tool_name params st of
        (Finished r, st1) \<Rightarrow> run_events ev es todo waiting (returned @ [(k, r)]) st1
      | (Awaiting answer, st1) \<Rightarrow>
          run_events ev es todo (waiting @ [(k, tool_name, answer)]) returned st1)"
| "run_events ev (Deliver k # es) todo waiting returned st =
     (case find (\<lambda>w. fst w = k) waiting of
        None \<Rightarrow> run_events ev es todo waiting returned st
      | Some (j, tool_name, answer) \<Rightarrow>
          (case finish_tool tool_name answer st of
             (r, st1) \<Rightarrow>
               run_events ev es todo (filter (\<lambda>w. fst w \<noteq> k) waiting)
                 (returned @ [(k, r)]) st1))"

text \<open>When the schedule says no more: the waiting tasks are resumed in their order, then the
  tasks not yet started run one after the other.\<close>

fun complete_all ::
  "(nat \<times> string \<times> (exn + http_response)) list \<Rightarrow> (nat \<times> ToolResult option) list \<Rightarrow> 'w state
     \<Rightarrow> (nat \<times> ToolResult option) list \<times> 'w state" where
  "complete_all [] returned st = (returned, st)"
| "complete_all ((k, tool_name, answer) # waiting) returned st =
     (case finish_tool tool_name answer st of
        (r, st1) \<Rightarrow> complete_all waiting (returned @ [(k, r)]) st1)"

fun run_rest ::
  "'w env \<Rightarrow> (nat \<times> string \<times> pydict) list \<Rightarrow> (nat \<times> ToolResult option) list \<Rightarrow> 'w state
     \<Rightarrow> (nat \<times> ToolResult option) list \<times> 'w state" where
  "run_rest ev [] returned st = (returned, st)"
| "run_rest ev ((k, tool_name, params) # todo) returned st =
     (case execute_tool ev tool_name params st of
        (r, st1) \<Rightarrow> run_rest ev todo (returned @ [(k, r)]) st1)"

definition wind_up ::
  "'w env \<Rightarrow> (nat \<times> string \<times> pydict) list \<Rightarrow> (nat \<times> string \<times> (exn + http_response)) list
     \<Rightarrow> (nat \<times> ToolResult option) list \<Rightarrow> 'w state
     \<Rightarrow> (nat \<times> ToolResult option) list \<times> 'w state" where
  "wind_up ev todo waiting returned st =
     (case complete_all waiting returned st of
        (returned1, st1) \<Rightarrow> run_rest ev todo returned1 st1)"

text \<open>\<open>gather\<close> returns the values of the tasks in the order of the tasks, whatever the
  order in which they returned.\<close>

definition gather ::
  "'w env \<Rightarrow> (string \<times> pydict) list \<Rightarrow> 'w state \<Rightarrow> ToolResult option list \<times> 'w state" where
  "gather ev tasks st =
     (case run_events ev (completion_order ev (world st) (length tasks)) (enumerate 0 tasks)
             [] [] st of
        (todo, waiting, returned, st1) \<Rightarrow>
          (case wind_up ev todo waiting returned st1 of
             (returned1, st2) \<Rightarrow> (map snd (sort_key fst returned1), st2)))"

text \<open>\<open>[r for r in results if r is not None]\<close>\<close>

fun not_none :: "'a option list \<Rightarrow> 'a list" where
  "not_none [] = []"
| "not_none (None # rs) = not_none rs"
| "not_none (Some r # rs) = r # not_none rs"

definition execute_parallel ::
  "'w env \<Rightarrow> SuggestedToolReference list \<Rightarrow> 'w state \<Rightarrow> ToolResult list \<times> 'w state" where
  "execute_parallel ev suggested_tools st =
     (let tasks = parallel_tasks suggested_tools in
      if tasks \<noteq> [] then
        (case gather ev tasks st of (rs, st1) \<Rightarrow> (not_none rs, st1))
      else ([], st))"

definition evaluate_condition :: "SuggestedToolReference \<Rightarrow> ToolExecutionContext \<Rightarrow> bool" where
  "evaluate_condition s c =
     (case get_last_result c of
        None \<Rightarrow> True
      | Some last_result \<Rightarrow>
          if toolType s = MODIFIER \<and> \<not> requiresPostProcessing (metadata last_result) then False
          else if toolType s = VALIDATOR then True
          else if truthy_str (reason s) \<and> contains ''if'' (lower (the (reason s))) then True
          else True)"

text \<open>The loop of \<open>_execute_conditional\<close>.\<close>

fun conditional_loop ::
  "'w env \<Rightarrow> SuggestedToolReference list \<Rightarrow> ToolResult list \<Rightarrow> 'w state
     \<Rightarrow> ToolResult list \<times> 'w state" where
  "conditional_loop ev [] acc st = (acc, st)"
| "conditional_loop ev (s # rest) acc st =
     (let should_execute = evaluate_condition s (ctx st) in
      if should_execute \<and> truthy_str (toolNameHint s) then
        (case execute_tool ev (the (toolNameHint s)) (or_empty (parameters s)) st of
           (None, st1) \<Rightarrow> conditional_loop ev rest acc st1
         | (Some result, st1) \<Rightarrow> conditional_loop ev rest (acc @ [result]) st1)
      else conditional_loop ev rest acc st)"

definition execute_conditional ::
  "'w env \<Rightarrow> SuggestedToolReference list \<Rightarrow> 'w state \<Rightarrow> ToolResult list \<times> 'w state" where
  "execute_conditional ev suggested_tools st = conditional_loop ev suggested_tools [] st"

text \<open>The dispatch on the strategy inside the loop of \<open>execute_chain\<close>.\<close>

fun run_strategy ::
  "'w env \<Rightarrow> ExecutionStrategy \<Rightarrow> SuggestedToolReference list \<Rightarrow> 'w state
     \<Rightarrow> ToolResult list \<times> 'w state" where
  "run_strategy ev SEQUENTIAL suggested_tools st = execute_sequential ev suggested_tools st"
| "run_strategy ev PARALLEL suggested_tools st = execute_parallel ev suggested_tools st"
| "run_strategy ev CONDITIONAL suggested_tools st = execute_conditional ev suggested_tools st"
| "run_strategy ev INTERACTIVE suggested_tools st = ([], st)"

text \<open>
  A run of the \<open>while\<close> loop of \<open>execute_chain\<close>: the list \<open>results\<close>, the counter
  \<open>chain_length\<close> and the state at the exit, and the number of times the body of the loop
  was entered (\<open>iterations\<close>, which the source does not keep).
\<close>

record 'w chain_run =
  chain_results :: "ToolResult list"
  chain_length :: nat
  iterations :: nat
  chain_state :: "'w state"

function chain_loop ::
  "'w env \<Rightarrow> nat \<Rightarrow> ExecutionStrategy \<Rightarrow> (SuggestedToolReference \<Rightarrow> bool) option
     \<Rightarrow> ToolResult list \<Rightarrow> ToolResult option \<Rightarrow> nat \<Rightarrow> nat \<Rightarrow> 'w state \<Rightarrow> 'w chain_run" where
  "chain_loop ev bound strategy filter_func acc current_result len its st =
     (case current_result of
        None \<Rightarrow> \<lparr>chain_results = acc, chain_length = len, iterations = its, chain_state = st\<rparr>
      | Some cur \<Rightarrow>
          if \<not> len < bound then
            \<lparr>chain_results = acc, chain_length = len, iterations = its, chain_state = st\<rparr>
          else if suggestedTools (metadata cur) = [] then
            \<lparr>chain_results = acc, chain_length = len, iterations = its + 1, chain_state = st\<rparr>
          else
            (let suggested_tools =
                   (case filter_func of
                      None \<Rightarrow> suggestedTools (metadata cur)
                    | Some f \<Rightarrow> filter f (suggestedTools (metadata cur)))
             in if suggested_tools = [] then
                  \<lparr>chain_results = acc, chain_length = len, iterations = its + 1, chain_state = st\<rparr>
                else
                  (let next = run_strategy ev strategy suggested_tools st in
                   if fst next = [] then
                     \<lparr>chain_results = acc, chain_length = len, iterations = its + 1,
                      chain_state = snd next\<rparr>
                   else
                     chain_loop ev bound strategy filter_func (acc @ fst next)
                       (Some (last (fst next))) (len + 1) (its + 1) (snd next))))"
  by pat_completeness auto
termination
  by (relation "measure (\<lambda>(ev, bound, strategy, filter_func, acc, cur, len, its, st). bound - len)")
     auto

declare chain_loop.simps [simp del]

text \<open>\<open>execute_chain\<close>: the whole run, and the list it returns with the state it leaves.\<close>

definition execute_chain_run ::
  "ToolChainExecutor \<Rightarrow> 'w env \<Rightarrow> ToolResult \<Rightarrow> ExecutionStrategy
     \<Rightarrow> (SuggestedToolReference \<Rightarrow> bool) option \<Rightarrow> 'w state \<Rightarrow> 'w chain_run" where
  "execute_chain_run ex ev initial_result strategy filter_func st =
     chain_loop ev (max_chain_length ex) strategy filter_func [initial_result] (Some initial_result)
       0 0 (st\<lparr>ctx := add_result (ctx st) initial_result\<rparr>)"

definition execute_chain ::
  "ToolChainExecutor \<Rightarrow> 'w env \<Rightarrow> ToolResult \<Rightarrow> ExecutionStrategy
     \<Rightarrow> (SuggestedToolReference \<Rightarrow> bool) option \<Rightarrow> 'w state \<Rightarrow> ToolResult list \<times> 'w state" where
  "execute_chain ex ev initial_result strategy filter_func st =
     (let run = execute_chain_run ex ev initial_result strategy filter_func st
      in (chain_results run, chain_state run))"

section \<open>Notions used to state the properties\<close>

text \<open>The tools on which \<open>execute_tool\<close> was called, in order, read off the log: one
  \<open>Executing\<close> record is written at the start of every call.\<close>

fun invoked :: "log_record list \<Rightarrow> string list" where
  "invoked [] = []"
| "invoked (Executing tool_name params # l) = tool_name # invoked l"
| "invoked (ErrorExecuting tool_name e # l) = invoked l"

text \<open>The calls of \<open>execute_tool\<close> for a list of tasks made one after the other, each
  finished before the next starts: the run to which a run of \<open>gather\<close> is compared.\<close>

fun one_by_one ::
  "'w env \<Rightarrow> (string \<times> pydict) list \<Rightarrow> 'w state \<Rightarrow> ToolResult option list \<times> 'w state" where
  "one_by_one ev [] st = ([], st)"
| "one_by_one ev ((tool_name, params) # tasks) st =
     (case execute_tool ev tool_name params st of
        (r, st1) \<Rightarrow> (case one_by_one ev tasks st1 of (rs, st2) \<Rightarrow> (r # rs, st2)))"

text \<open>Two states that differ at most in the order of the entries of the context and of the
  log: the same outside world, the same context apart from its two lists, the same results
  and the same errors counted with multiplicity, the same log records counted with
  multiplicity, and the same invocations in the same order.\<close>

definition same_up_to_order :: "'w state \<Rightarrow> 'w state \<Rightarrow> bool" where
  "same_up_to_order a b =
     (world a = world b
      \<and> (ctx a)\<lparr>results := [], errors := []\<rparr> = (ctx b)\<lparr>results := [], errors := []\<rparr>
      \<and> mset (results (ctx a)) = mset (results (ctx b))
      \<and> mset (errors (ctx a)) = mset (errors (ctx b))
      \<and> mset (logged a) = mset (logged b)
      \<and> invoked (logged a) = invoked (logged b))"

text \<open>A state with entries appended to the log, the results and the errors.\<close>

definition appended ::
  "log_record list \<Rightarrow> ToolResult list \<Rightarrow> pydict list \<Rightarrow> 'w state \<Rightarrow> 'w state" where
  "appended l rs es st =
     st\<lparr>logged := logged st @ l,
        ctx := (ctx st)\<lparr>results := results (ctx st) @ rs, errors := errors (ctx st) @ es\<rparr>\<rparr>"

text \<open>A suggestion that the Parallel strategy may run: its type is Retriever or Analyzer and
  it carries a (non-empty) tool-name hint.\<close>

definition eligible_for_parallel :: "SuggestedToolReference \<Rightarrow> bool" where
  "eligible_for_parallel s =
     ((toolType s = RETRIEVER \<or> toolType s = ANALYZER) \<and> truthy_str (toolNameHint s))"

section \<open>Workflow engine\<close>

text \<open>A step of a workflow: the dictionary with the key \<open>tool\<close> and the optional keys
  \<open>params\<close> and \<open>required\<close>.\<close>

record WorkflowStep =
  tool :: string
  step_params :: "pydict option"
  required :: "bool option"

definition step :: "string \<Rightarrow> bool \<Rightarrow> WorkflowStep" where
  "step t r = \<lparr>tool = t, step_params = None, required = Some r\<rparr>"

definition define_workflows :: "(string \<times> WorkflowStep list) list" where
  "define_workflows =
     [(''create_and_setup_repo'',
        [step ''create_repository'' True,
         step ''initialize_repository'' True,
         step ''generate_gitignore'' False,
         \<lparr>tool = ''add_file'', step_params = Some [(''file_name'', JStr ''README.md'')],
          required = Some False\<rparr>,
         step ''commit_changes'' True,
         step ''push_changes'' True]),
      (''feature_development'',
        [step ''create_branch'' True,
         step ''add_multiple_files'' True,
         step ''commit_changes'' True,
         step ''push_changes'' True,
         step ''create_pull_request'' True]),
      (''code_review'',
        [step ''list_pull_requests'' True,
         step ''review_changes'' True,
         step ''add_comments'' False,
         step ''approve_pr'' True,
         step ''merge_branches'' True])]"

record WorkflowEngine =
  workflows :: "(string \<times> WorkflowStep list) list"

definition WorkflowEngine_init :: WorkflowEngine where
  "WorkflowEngine_init = \<lparr>workflows = define_workflows\<rparr>"

text \<open>The dictionary that \<open>execute_workflow\<close> returns, in its two shapes.\<close>

datatype workflow_report =
    FailedReport (workflow: string) (report_status: string) (failed_step: string)
      (completed_steps: "string list") (report_errors: "pydict list")
  | CompletedReport (workflow: string) (report_status: string) (steps_executed: nat)
      (report_results: "ToolResult list") (summary: execution_summary)

text \<open>
  \<open>params.update(x)\<close> for a value \<open>x\<close> of any JSON type. A dictionary is merged; a list
  is read as a sequence of pairs; a non-empty string raises \<open>ValueError\<close> (its first element
  is a string of length 1); a number, a truth value or \<open>None\<close> is not iterable.
\<close>

definition not_iterable :: "string \<Rightarrow> exn" where
  "not_iterable t = Exn ''TypeError'' ([CHR 0x27] @ t @ [CHR 0x27] @ '' object is not iterable'')"

fun py_update :: "'w env \<Rightarrow> pydict \<Rightarrow> json \<Rightarrow> exn + pydict" where
  "py_update ev params (JObj kvs) = Inr (dict_update params kvs)"
| "py_update ev params (JList xs) =
     (if xs = [] then Inr params else update_from_sequence ev params xs)"
| "py_update ev params (JStr s) =
     (if s = [] then Inr params
      else Inl (Exn ''ValueError''
                 ''dictionary update sequence element #0 has length 1; 2 is required''))"
| "py_update ev params (JInt i) = Inl (not_iterable ''int'')"
| "py_update ev params (JFloat x) = Inl (not_iterable ''float'')"
| "py_update ev params (JBool b) = Inl (not_iterable ''bool'')"
| "py_update ev params JNull = Inl (not_iterable ''NoneType'')"

text \<open>The body of the loop of \<open>execute_workflow\<close> after a step has succeeded:
  \<open>if result.payload: params.update(result.payload)\<close>.\<close>

definition merge_payload :: "'w env \<Rightarrow> pydict \<Rightarrow> ToolResult \<Rightarrow> exn + pydict" where
  "merge_payload ev params result =
     (if truthy (payload result) then py_update ev params (payload result) else Inr params)"

text \<open>
  The loop over the steps. It ends with the failure report of a required step, with the
  report of completion, or with the exception raised by \<open>params.update\<close>, which nothing
  catches.
\<close>

fun workflow_loop ::
  "'w env \<Rightarrow> string \<Rightarrow> WorkflowStep list \<Rightarrow> ToolResult list \<Rightarrow> pydict \<Rightarrow> 'w state
     \<Rightarrow> (exn + workflow_report) \<times> 'w state" where
  "workflow_loop ev workflow_name [] acc params st =
     (case utcnow ev (world st) of
        (now, w1) \<Rightarrow>
          (Inr (CompletedReport workflow_name ''completed'' (length acc) acc
                  (get_execution_summary (ctx st) now)),
           st\<lparr>world := w1\<rparr>))"
| "workflow_loop ev workflow_name (s # rest) acc params st =
     (let tool_name = tool s;
          req = (case required s of None \<Rightarrow> True | Some b \<Rightarrow> b);
          sp = dict_update params (or_empty (step_params s))
      in case execute_tool ev tool_name sp st of
           (Some result, st1) \<Rightarrow>
             (case merge_payload ev params result of
                Inl e \<Rightarrow> (Inl e, st1)
              | Inr params1 \<Rightarrow> workflow_loop ev workflow_name rest (acc @ [result]) params1 st1)
         | (None, st1) \<Rightarrow>
             if req then
               (Inr (FailedReport workflow_name ''failed'' tool_name (map toolName acc)
                       (errors (ctx st1))), st1)
             else workflow_loop ev workflow_name rest acc params st1)"

text \<open>\<open>WorkflowEngine.execute_workflow\<close>: \<open>Inl\<close> is a raised exception.\<close>

definition execute_workflow ::
  "WorkflowEngine \<Rightarrow> 'w env \<Rightarrow> string \<Rightarrow> pydict \<Rightarrow> 'w state
     \<Rightarrow> (exn + workflow_report) \<times> 'w state" where
  "execute_workflow eng ev workflow_name initial_params st =
     (case map_of (workflows eng) workflow_name of
        None \<Rightarrow> (Inl (Exn ''ValueError'' (''Unknown workflow: '' @ workflow_name)), st)
      | Some steps \<Rightarrow> workflow_loop ev workflow_name steps [] initial_params st)"

section \<open>Orchestrator\<close>

text \<open>\<open>IntentClassifier.classify_intent\<close>. The keys of \<open>keyword_intent_map\<close> are tuples
  of keywords, except \<open>("gitignore")\<close> and \<open>("status")\<close>, which are plain strings: the
  loop over such a key runs over its characters.\<close>

definition keyword_intent_map :: "(string list \<times> string) list" where
  "keyword_intent_map =
     [([''create'', ''repository'', ''repo''], ''create_repository''),
      ([''create'', ''github'', ''repo''], ''create_repository''),
      ([''initialize'', ''git''], ''initialize_repository''),
      ([''init'', ''repo''], ''initialize_repository''),
      ([''clone'', ''repository''], ''clone_repository''),
      ([''clone'', ''github''], ''clone_repository''),
      ([''create'', ''branch''], ''create_branch''),
      ([''new'', ''branch''], ''create_branch''),
      ([''list'', ''branch''], ''list_branches''),
      ([''show'', ''branch''], ''list_branches''),
      ([''merge'', ''branch''], ''merge_branches''),
      ([''merge'', ''into''], ''merge_branches''),
      ([''add'', ''file''], ''add_file''),
      ([''create'', ''file''], ''add_file''),
      ([''add'', ''multiple'', ''files''], ''add_multiple_files''),
      ([''add'', ''files''], ''add_multiple_files''),
      ([''list'', ''files''], ''list_files''),
      ([''show'', ''files''], ''list_files''),
      ([''read'', ''file''], ''read_file''),
      ([''show'', ''content''], ''read_file''),
      (map (\<lambda>c. [c]) ''gitignore'', ''generate_gitignore''),
      ([''commit'', ''change''], ''commit_changes''),
      ([''commit'', ''message''], ''commit_changes''),
      ([''push'', ''change''], ''push_changes''),
      ([''push'', ''github''], ''push_changes''),
      ([''stage'', ''all''], ''stage_all_changes''),
      ([''add'', ''all''], ''stage_all_changes''),
      ([''create'', ''issue''], ''create_issue''),
      ([''open'', ''issue''], ''create_issue''),
      ([''create'', ''pull'', ''request''], ''create_pull_request''),
      ([''create'', ''pr''], ''create_pull_request''),
      ([''list'', ''repo''], ''list_repositories''),
      ([''show'', ''repo''], ''list_repositories''),
      ([''setup'', ''credential''], ''setup_credentials''),
      ([''configure'', ''github''], ''setup_credentials''),
      ([''set'', ''credential''], ''setup_credentials''),
      (map (\<lambda>c. [c]) ''status'', ''check_status''),
      ([''git'', ''status''], ''check_status'')]"

fun first_match :: "string \<Rightarrow> (string list \<times> string) list \<Rightarrow> ToolIntent option" where
  "first_match query_lower [] = None"
| "first_match query_lower ((keywords, name) # rest) =
     (if list_all (\<lambda>keyword. contains keyword query_lower) keywords
      then get_intent_by_name name
      else first_match query_lower rest)"

definition classify_intent :: "string \<Rightarrow> ToolIntent option" where
  "classify_intent user_query = first_match (lower user_query) keyword_intent_map"

record ToolOrchestrator =
  chain_executor :: ToolChainExecutor
  workflow_engine :: WorkflowEngine

definition ToolOrchestrator_init :: ToolOrchestrator where
  "ToolOrchestrator_init =
     \<lparr>chain_executor = ToolChainExecutor_init, workflow_engine = WorkflowEngine_init\<rparr>"

text \<open>The constructor call \<open>ToolExecutionContext(conversation_id or f"conv-{uuid4()}",
  user_id, f"session-{uuid4()}")\<close> of both entry points, followed by \<open>__init__\<close>.\<close>

definition new_context ::
  "'w env \<Rightarrow> string option \<Rightarrow> string \<Rightarrow> 'w \<Rightarrow> ToolExecutionContext \<times> 'w" where
  "new_context ev conversation user w0 =
     (case (if truthy_str conversation then (the conversation, w0)
            else (case uuid4 ev w0 of (u, w) \<Rightarrow> (''conv-'' @ u, w))) of
        (conv, w1) \<Rightarrow>
          (case uuid4 ev w1 of
             (u2, w2) \<Rightarrow>
               (case uuid4 ev w2 of
                  (u3, w3) \<Rightarrow>
                    (case utcnow ev w3 of
                       (now, w4) \<Rightarrow>
                         (\<lparr>conversation_id = conv, user_id = user,
                           session_id = ''session-'' @ u2, execution_id = ''exec-'' @ u3,
                           start_time = now, results = [], errors = [],
                           context_metadata = []\<rparr>, w4)))))"

text \<open>The dictionary that \<open>execute_request\<close> returns, in its three shapes.\<close>

datatype request_report =
    NotUnderstood (request_status: string) (request_error: string) (suggestions: "string list")
  | InitialFailed (request_status: string) (request_error: string)
      (context_summary: execution_summary)
  | RequestCompleted (request_status: string) (initial_tool: string) (chain_executed: bool)
      (total_tools: nat) (request_summary: execution_summary)
      (final_result: "ToolResult option")

text \<open>
  \<open>ToolOrchestrator.execute_request\<close>. The log and the outside world are given; the context
  is created here, and the state returned with the report holds it as the run left it.
\<close>

definition execute_request ::
  "ToolOrchestrator \<Rightarrow> 'w env \<Rightarrow> string \<Rightarrow> string \<Rightarrow> string option
     \<Rightarrow> log_record list \<Rightarrow> 'w \<Rightarrow> request_report \<times> 'w state" where
  "execute_request orch ev user_request user conversation lg w0 =
     (case new_context ev conversation user w0 of
        (c, w1) \<Rightarrow>
          (let st = \<lparr>ctx = c, logged = lg, world = w1\<rparr> in
           case classify_intent user_request of
             None \<Rightarrow>
               (NotUnderstood ''failed'' ''Could not understand request''
                  (map fst INTENT_CLASSIFICATIONS), st)
           | Some i \<Rightarrow>
               (case execute_tool ev (intent_name i) [] st of
                  (None, st1) \<Rightarrow>
                    (case utcnow ev (world st1) of
                       (now, w2) \<Rightarrow>
                         (InitialFailed ''failed'' ''Initial tool execution failed''
                            (get_execution_summary (ctx st1) now), st1\<lparr>world := w2\<rparr>))
                | (Some initial_result, st1) \<Rightarrow>
                    (let st2 = (if requiresPostProcessing (metadata initial_result)
                                then snd (execute_chain (chain_executor orch) ev initial_result
                                            SEQUENTIAL None st1)
                                else st1)
                     in case utcnow ev (world st2) of
                          (now, w3) \<Rightarrow>
                            (RequestCompleted ''completed'' (toolName initial_result)
                               (length (results (ctx st2)) > 1)
                               (length (results (ctx st2)))
                               (get_execution_summary (ctx st2) now)
                               (get_last_result (ctx st2)),
                             st2\<lparr>world := w3\<rparr>)))))"

text \<open>\<open>ToolOrchestrator.execute_workflow\<close>: a fresh context, then the engine; nothing is
  caught on the way.\<close>

definition orchestrator_execute_workflow ::
  "ToolOrchestrator \<Rightarrow> 'w env \<Rightarrow> string \<Rightarrow> pydict \<Rightarrow> string \<Rightarrow> string option
     \<Rightarrow> log_record list \<Rightarrow> 'w \<Rightarrow> (exn + workflow_report) \<times> 'w state" where
  "orchestrator_execute_workflow orch ev workflow_name params user conversation lg w0 =
     (case new_context ev conversation user w0 of
        (c, w1) \<Rightarrow>
          execute_workflow (workflow_engine orch) ev workflow_name params
            \<lparr>ctx = c, logged = lg, world = w1\<rparr>)"

section \<open>Serialisation of results (tool\_contracts.py)\<close>

text \<open>
  \<open>to_json\<close> is \<open>model_dump_json(exclude_none=True)\<close> and \<open>from_json\<close> is
  \<open>model_validate_json\<close>, both of the pydantic library. They are modelled on the JSON
  document itself (a value of type \<open>json\<close>) rather than on its text: printing a document
  and parsing the text give the document back, and the argument \<open>indent\<close> of \<open>to_json\<close>
  changes the layout of the text only. What is modelled of the library is what the two
  functions of the source rely on: a field whose value is \<open>None\<close> is left out of the dump;
  an enumeration is dumped as its value; validation takes each field of the class from the
  document, fills a missing field from its default, and fails when a field without default
  is missing or a value has the wrong type. The lenient conversions of the library (a number
  given as text, say) are not modelled: a value of another JSON type is rejected.

  The text of a \<open>datetime\<close> is ISO 8601; printing and parsing it are taken as a pair of
  functions \<open>isoformat\<close> and \<open>parse_datetime\<close>.
\<close>

record datetime_codec =
  isoformat :: "datetime \<Rightarrow> string"
  parse_datetime :: "string \<Rightarrow> datetime option"

text \<open>The fields of a dump whose value is not \<open>None\<close>, in order.\<close>

fun exclude_none :: "(string \<times> json option) list \<Rightarrow> pydict" where
  "exclude_none [] = []"
| "exclude_none ((k, None) # kvs) = exclude_none kvs"
| "exclude_none ((k, Some v) # kvs) = (k, v) # exclude_none kvs"

text \<open>A field of type \<open>Any\<close>: its value is \<open>None\<close> when it is the JSON null.\<close>

fun unless_null :: "json \<Rightarrow> json option" where
  "unless_null JNull = None"
| "unless_null v = Some v"

fun ToolType_value :: "ToolType \<Rightarrow> int" where
  "ToolType_value CREATOR = 0"
| "ToolType_value ANALYZER = 1"
| "ToolType_value MODIFIER = 2"
| "ToolType_value RETRIEVER = 3"
| "ToolType_value VALIDATOR = 4"
| "ToolType_value EXECUTOR = 5"
| "ToolType_value REPORTER = 6"

definition dump_UserContextInfo :: "UserContextInfo \<Rightarrow> json" where
  "dump_UserContextInfo u =
     JObj (exclude_none [(''userId'', Some (JStr (userId u))),
                         (''sessionId'', Some (JStr (sessionId u)))])"

definition dump_ContentSummary :: "ContentSummary \<Rightarrow> json" where
  "dump_ContentSummary c =
     JObj (exclude_none [(''fields'', Some (JList (map JStr (summary_fields c)))),
                         (''recordCount'', Some (JInt (recordCount c)))])"

definition dump_SuggestedToolReference :: "SuggestedToolReference \<Rightarrow> json" where
  "dump_SuggestedToolReference s =
     JObj (exclude_none
       [(''toolType'', Some (JInt (ToolType_value (toolType s)))),
        (''toolNameHint'', map_option JStr (toolNameHint s)),
        (''reason'', map_option JStr (reason s)),
        (''parameters'', map_option JObj (parameters s)),
        (''outputLabel'', map_option JStr (outputLabel s))])"

definition dump_ToolMetadata :: "ToolMetadata \<Rightarrow> json" where
  "dump_ToolMetadata m =
     JObj (exclude_none
       [(''dataType'', Some (JStr (dataType m))),
        (''dataSize'', Some (JInt (dataSize m))),
        (''intent'', Some (JStr (intent m))),
        (''description'', Some (JStr (description m))),
        (''accessibility'', Some (JStr (accessibility m))),
        (''requiresPostProcessing'', Some (JBool (requiresPostProcessing m))),
        (''suggestedTools'', Some (JList (map dump_SuggestedToolReference (suggestedTools m)))),
        (''contentSummary'', map_option dump_ContentSummary (contentSummary m)),
        (''confidence'', Some (JFloat (confidence m)))])"

definition to_json :: "datetime_codec \<Rightarrow> ToolResult \<Rightarrow> json" where
  "to_json codec r =
     JObj (exclude_none
       [(''toolResultId'', Some (JStr (toolResultId r))),
        (''toolName'', Some (JStr (toolName r))),
        (''timestamp'', Some (JStr (isoformat codec (timestamp r)))),
        (''conversationId'', map_option JStr (conversationId r)),
        (''conversationMessageId'', map_option JStr (conversationMessageId r)),
        (''userContext'', map_option dump_UserContextInfo (userContext r)),
        (''metadata'', Some (dump_ToolMetadata (metadata r))),
        (''payload'', unless_null (payload r)),
        (''stepIndex'', Some (JInt (stepIndex r))),
        (''parentToolResultId'', map_option JStr (parentToolResultId r))])"

text \<open>Validation of a value against a type: the value, or what is wrong with it.\<close>

fun v_str :: "json \<Rightarrow> string + string" where
  "v_str (JStr s) = Inr s"
| "v_str v = Inl ''Input should be a valid string''"

fun v_int :: "json \<Rightarrow> string + int" where
  "v_int (JInt i) = Inr i"
| "v_int v = Inl ''Input should be a valid integer''"

fun v_bool :: "json \<Rightarrow> string + bool" where
  "v_bool (JBool b) = Inr b"
| "v_bool v = Inl ''Input should be a valid boolean''"

fun v_float :: "json \<Rightarrow> string + pyfloat" where
  "v_float (JFloat x) = Inr x"
| "v_float (JInt i) = Inr (PyFloat i 0)"
| "v_float v = Inl ''Input should be a valid number''"

fun v_any :: "json \<Rightarrow> string + json" where
  "v_any v = Inr v"

fun v_dict :: "json \<Rightarrow> string + pydict" where
  "v_dict (JObj d) = Inr d"
| "v_dict v = Inl ''Input should be a valid dictionary''"

fun v_datetime :: "datetime_codec \<Rightarrow> json \<Rightarrow> string + datetime" where
  "v_datetime codec (JStr s) =
     (case parse_datetime codec s of
        Some t \<Rightarrow> Inr t
      | None \<Rightarrow> Inl ''Input should be a valid datetime'')"
| "v_datetime codec v = Inl ''Input should be a valid datetime''"

fun v_ToolType :: "json \<Rightarrow> string + ToolType" where
  "v_ToolType (JInt i) =
     (if i = 0 then Inr CREATOR else if i = 1 then Inr ANALYZER
      else if i = 2 then Inr MODIFIER else if i = 3 then Inr RETRIEVER
      else if i = 4 then Inr VALIDATOR else if i = 5 then Inr EXECUTOR
      else if i = 6 then Inr REPORTER
      else Inl ''Input should be 0, 1, 2, 3, 4, 5 or 6'')"
| "v_ToolType v = Inl ''Input should be 0, 1, 2, 3, 4, 5 or 6''"

fun v_optional :: "(json \<Rightarrow> string + 'a) \<Rightarrow> json \<Rightarrow> string + 'a option" where
  "v_optional f JNull = Inr None"
| "v_optional f v = (case f v of Inl e \<Rightarrow> Inl e | Inr x \<Rightarrow> Inr (Some x))"

fun v_items :: "(json \<Rightarrow> string + 'a) \<Rightarrow> json list \<Rightarrow> string + 'a list" where
  "v_items f [] = Inr []"
| "v_items f (v # vs) =
     (case f v of
        Inl e \<Rightarrow> Inl e
      | Inr x \<Rightarrow> (case v_items f vs of Inl e \<Rightarrow> Inl e | Inr xs \<Rightarrow> Inr (x # xs)))"

fun v_list :: "(json \<Rightarrow> string + 'a) \<Rightarrow> json \<Rightarrow> string + 'a list" where
  "v_list f (JList vs) = v_items f vs"
| "v_list f v = Inl ''Input should be a valid list''"

text \<open>A field of a model: required (\<open>Field(...)\<close>), or with a default.\<close>

definition required_field :: "pydict \<Rightarrow> string \<Rightarrow> (json \<Rightarrow> string + 'a) \<Rightarrow> string + 'a" where
  "required_field obj k f =
     (case map_of obj k of
        None \<Rightarrow> Inl (k @ '': Field required'')
      | Some v \<Rightarrow> (case f v of Inl e \<Rightarrow> Inl (k @ '': '' @ e) | Inr x \<Rightarrow> Inr x))"

definition default_field ::
  "pydict \<Rightarrow> string \<Rightarrow> 'a \<Rightarrow> (json \<Rightarrow> string + 'a) \<Rightarrow> string + 'a" where
  "default_field obj k d f =
     (case map_of obj k of
        None \<Rightarrow> Inr d
      | Some v \<Rightarrow> (case f v of Inl e \<Rightarrow> Inl (k @ '': '' @ e) | Inr x \<Rightarrow> Inr x))"

definition and_then :: "string + 'a \<Rightarrow> ('a \<Rightarrow> string + 'b) \<Rightarrow> string + 'b" where
  "and_then x f = (case x of Inl e \<Rightarrow> Inl e | Inr a \<Rightarrow> f a)"

fun validate_UserContextInfo :: "json \<Rightarrow> string + UserContextInfo" where
  "validate_UserContextInfo (JObj obj) =
     and_then (default_field obj ''userId'' [] v_str) (\<lambda>u.
     and_then (default_field obj ''sessionId'' [] v_str) (\<lambda>s.
     Inr \<lparr>userId = u, sessionId = s\<rparr>))"
| "validate_UserContextInfo v = Inl ''Input should be an object''"

fun validate_ContentSummary :: "json \<Rightarrow> string + ContentSummary" where
  "validate_ContentSummary (JObj obj) =
     and_then (default_field obj ''fields'' [] (v_list v_str)) (\<lambda>f.
     and_then (default_field obj ''recordCount'' 0 v_int) (\<lambda>n.
     Inr \<lparr>summary_fields = f, recordCount = n\<rparr>))"
| "validate_ContentSummary v = Inl ''Input should be an object''"

fun validate_SuggestedToolReference :: "json \<Rightarrow> string + SuggestedToolReference" where
  "validate_SuggestedToolReference (JObj obj) =
     and_then (required_field obj ''toolType'' v_ToolType) (\<lambda>t.
     and_then (default_field obj ''toolNameHint'' None (v_optional v_str)) (\<lambda>h.
     and_then (default_field obj ''reason'' None (v_optional v_str)) (\<lambda>r.
     and_then (default_field obj ''parameters'' None (v_optional v_dict)) (\<lambda>p.
     and_then (default_field obj ''outputLabel'' None (v_optional v_str)) (\<lambda>l.
     Inr \<lparr>toolType = t, toolNameHint = h, reason = r, parameters = p, outputLabel = l\<rparr>)))))"
| "validate_SuggestedToolReference v = Inl ''Input should be an object''"

fun validate_ToolMetadata :: "json \<Rightarrow> string + ToolMetadata" where
  "validate_ToolMetadata (JObj obj) =
     and_then (default_field obj ''dataType'' ''application/json'' v_str) (\<lambda>dt.
     and_then (default_field obj ''dataSize'' 0 v_int) (\<lambda>ds.
     and_then (required_field obj ''intent'' v_str) (\<lambda>i.
     and_then (required_field obj ''description'' v_str) (\<lambda>d.
     and_then (default_field obj ''accessibility'' ''public'' v_str) (\<lambda>a.
     and_then (default_field obj ''requiresPostProcessing'' False v_bool) (\<lambda>rpp.
     and_then (default_field obj ''suggestedTools'' []
                 (v_list validate_SuggestedToolReference)) (\<lambda>st.
     and_then (default_field obj ''contentSummary'' None
                 (v_optional validate_ContentSummary)) (\<lambda>cs.
     and_then (default_field obj ''confidence'' (PyFloat 1 0) v_float) (\<lambda>c.
     Inr \<lparr>dataType = dt, dataSize = ds, intent = i, description = d, accessibility = a,
          requiresPostProcessing = rpp, suggestedTools = st, contentSummary = cs,
          confidence = c\<rparr>)))))))))"
| "validate_ToolMetadata v = Inl ''Input should be an object''"

text \<open>Validation of a \<open>ToolResult\<close>; \<open>fresh_id\<close> and \<open>now\<close> are what the default
  factories \<open>uuid4\<close> and \<open>utcnow\<close> give when the identifier or the timestamp is missing.\<close>

fun model_validate :: "datetime_codec \<Rightarrow> string \<Rightarrow> datetime \<Rightarrow> json \<Rightarrow> string + ToolResult" where
  "model_validate codec fresh_id now (JObj obj) =
     and_then (default_field obj ''toolResultId'' fresh_id v_str) (\<lambda>rid.
     and_then (required_field obj ''toolName'' v_str) (\<lambda>name.
     and_then (default_field obj ''timestamp'' now (v_datetime codec)) (\<lambda>ts.
     and_then (default_field obj ''conversationId'' None (v_optional v_str)) (\<lambda>cid.
     and_then (default_field obj ''conversationMessageId'' None (v_optional v_str)) (\<lambda>mid.
     and_then (default_field obj ''userContext'' None
                 (v_optional validate_UserContextInfo)) (\<lambda>uc.
     and_then (required_field obj ''metadata'' validate_ToolMetadata) (\<lambda>md.
     and_then (required_field obj ''payload'' v_any) (\<lambda>p.
     and_then (default_field obj ''stepIndex'' 0 v_int) (\<lambda>si.
     and_then (default_field obj ''parentToolResultId'' None (v_optional v_str)) (\<lambda>pid.
     Inr \<lparr>toolResultId = rid, toolName = name, timestamp = ts, conversationId = cid,
          conversationMessageId = mid, userContext = uc, metadata = md, payload = p,
          stepIndex = si, parentToolResultId = pid\<rparr>))))))))))"
| "model_validate codec fresh_id now v = Inl ''Input should be an object''"

definition from_json :: "datetime_codec \<Rightarrow> string \<Rightarrow> datetime \<Rightarrow> json \<Rightarrow> exn + ToolResult" where
  "from_json codec fresh_id now j =
     (case model_validate codec fresh_id now j of
        Inl e \<Rightarrow> Inl (Exn ''ValidationError'' e)
      | Inr r \<Rightarrow> Inr r)"

section \<open>Concrete collaborators and inputs\<close>

text \<open>A well-formed result with the given tool name, post-processing flag, suggestions and
  payload.\<close>

definition sample_result ::
  "string \<Rightarrow> bool \<Rightarrow> SuggestedToolReference list \<Rightarrow> json \<Rightarrow> ToolResult" where
  "sample_result name rpp suggs p =
     \<lparr>toolResultId = ''id-'' @ name, toolName = name, timestamp = 0,
      conversationId = Some ''conv-1'', conversationMessageId = Some ''msg-1'',
      userContext = Some \<lparr>userId = ''alice'', sessionId = ''session-1''\<rparr>,
      metadata = \<lparr>dataType = ''application/json'', dataSize = 0, intent = ''run '' @ name,
                  description = ''ran '' @ name, accessibility = ''public'',
                  requiresPostProcessing = rpp, suggestedTools = suggs,
                  contentSummary = None, confidence = PyFloat 1 0\<rparr>,
      payload = p, stepIndex = 0, parentToolResultId = None\<rparr>"

definition suggestion :: "ToolType \<Rightarrow> string option \<Rightarrow> SuggestedToolReference" where
  "suggestion t h = \<lparr>toolType = t, toolNameHint = h, reason = None, parameters = None,
                     outputLabel = None\<rparr>"

definition ok_response :: "ToolResult \<Rightarrow> exn + http_response" where
  "ok_response r = Inr \<lparr>status_code = 200, text_body = ''OK'', validated = Inr r\<rparr>"

definition http_status :: "int \<Rightarrow> string \<Rightarrow> ToolResult \<Rightarrow> exn + http_response" where
  "http_status n t r = Inr \<lparr>status_code = n, text_body = t, validated = Inr r\<rparr>"

text \<open>A transport that answers by endpoint, with no state of its own.\<close>

definition scripted_env :: "(string \<Rightarrow> exn + http_response) \<Rightarrow> unit env" where
  "scripted_env answer =
     \<lparr>request = (\<lambda>w m e p h. (answer e, w)),
      uuid4 = (\<lambda>w. (''00000000-0000-4000-8000-000000000000'', w)),
      utcnow = (\<lambda>w. (0, w)),
      update_from_sequence = (\<lambda>d xs. Inl (Exn ''TypeError''
        ''cannot convert dictionary update sequence element #0 to a sequence'')),
      completion_order = (\<lambda>w n. [])\<rparr>"

definition always_env :: "exn + http_response \<Rightarrow> unit env" where
  "always_env x = scripted_env (\<lambda>e. x)"

definition empty_context :: ToolExecutionContext where
  "empty_context =
     \<lparr>conversation_id = ''conv-1'', user_id = ''alice'', session_id = ''session-1'',
      execution_id = ''exec-1'', start_time = 0, results = [], errors = [],
      context_metadata = []\<rparr>"

definition start_state :: "unit state" where
  "start_state = \<lparr>ctx = empty_context, logged = [], world = ()\<rparr>"

text \<open>A result that suggests the very tool that produced it, and asks for post-processing:
  with a transport that always answers with it, the suggestions form a cycle.\<close>

definition looping_result :: ToolResult where
  "looping_result =
     sample_result ''check_status'' True [suggestion ANALYZER (Some ''check_status'')] (JObj [])"

text \<open>A transport that answers by endpoint from a table and is unreachable elsewhere.\<close>

definition table_env :: "(string \<times> (exn + http_response)) list \<Rightarrow> unit env" where
  "table_env tbl =
     scripted_env (\<lambda>e. case map_of tbl e of
                          Some x \<Rightarrow> x
                        | None \<Rightarrow> Inl (Exn ''ConnectionError'' ''unreachable''))"

definition list_files_result :: ToolResult where
  "list_files_result = sample_result ''list_files'' False [] (JObj [(''contents'', JList [])])"

text \<open>Only the endpoint of \<open>list_files\<close> answers.\<close>

definition files_env :: "unit env" where
  "files_env = table_env [(''/repos/list-files/{repo_path}'', ok_response list_files_result)]"

text \<open>A workflow of three required steps, and a transport on which only the endpoint of
  \<open>create_branch\<close> answers; its result carries the tool name that the server of this
  repository gives it (\<open>create_local_branch\<close>, in app.py).\<close>

definition three_step_engine :: WorkflowEngine where
  "three_step_engine =
     \<lparr>workflows = [(''branch_and_commit'',
        [step ''create_branch'' True, step ''add_multiple_files'' True,
         step ''commit_changes'' True])]\<rparr>"

definition create_branch_result :: ToolResult where
  "create_branch_result =
     sample_result ''create_local_branch'' True []
       (JObj [(''branch_name'', JStr ''feature''), (''message'', JStr ''created'')])"

definition branch_env :: "unit env" where
  "branch_env = table_env [(''/repos/create-branch'', ok_response create_branch_result)]"

text \<open>The answer of the status endpoint for a repository with uncommitted changes, as the
  server builds it: post-processing requested, \<open>commit_changes\<close> suggested. On the
  transport below no other endpoint answers.\<close>

definition status_result :: ToolResult where
  "status_result =
     sample_result ''check_status'' True [suggestion EXECUTOR (Some ''commit_changes'')]
       (JObj [(''status'', JStr ''modified: a.txt''), (''has_changes'', JBool True)])"

definition status_env :: "unit env" where
  "status_env = table_env [(''/repos/status/{repo_path}'', ok_response status_result)]"

text \<open>A transport on which the endpoints of \<open>list_files\<close> and \<open>check_status\<close> answer, with
  an event loop that starts two tasks and gets the answer of the second before that of the
  first.\<close>

definition second_first_env :: "unit env" where
  "second_first_env =
     (table_env [(''/repos/list-files/{repo_path}'', ok_response list_files_result),
                 (''/repos/status/{repo_path}'', ok_response status_result)])
       \<lparr>completion_order := (\<lambda>w n. [StartNext, StartNext, Deliver 1, Deliver 0])\<rparr>"

text \<open>The ISO 8601 text of the instant 0 and its reading; no other instant is used below.\<close>

definition epoch_codec :: datetime_codec where
  "epoch_codec =
     \<lparr>isoformat = (\<lambda>t. ''1970-01-01T00:00:00''),
      parse_datetime = (\<lambda>s. if s = ''1970-01-01T00:00:00'' then Some 0 else None)\<rparr>"

text \<open>A result built with \<open>payload=None\<close>.\<close>

definition empty_payload_result :: ToolResult where
  "empty_payload_result = sample_result ''push_changes'' False [] JNull"

text \<open>A transport whose call always ends in the same way, and a fixed \<open>uuid4\<close>.\<close>

definition ends_with ::
  "transport_event \<Rightarrow> unit \<Rightarrow> string \<Rightarrow> string \<Rightarrow> pydict \<Rightarrow> (string \<times> string) list
     \<Rightarrow> transport_event \<times> unit" where
  "ends_with x w m e p h = (x, w)"

definition fixed_uuid :: "unit \<Rightarrow> string \<times> unit" where
  "fixed_uuid w = (''00000000-0000-4000-8000-000000000000'', w)"

definition repository_result :: ToolResult where
  "repository_result = sample_result ''create_github_repository'' False [] (JObj [])"

section \<open>Verified properties\<close>

subsection \<open>Tool contracts\<close>


subsection \<open>Tool executor\<close>

lemma registry_create_repository:
  "get_intent_by_name ''create_repository'' =
     Some \<lparr>intent_name = ''create_repository'', endpoint = ''/github/create-repo'',
           http_method = ''POST'', tool_type = CREATOR\<rparr>"
  by (simp add: get_intent_by_name_def INTENT_CLASSIFICATIONS_def mk_intent_def)

text \<open>A tool that is not in the registry: the transport is not called, one error entry is
  recorded.\<close>

lemma execute_tool_unknown:
  assumes "get_intent_by_name tool_name = None"
  shows "execute_tool ev tool_name params st =
           (None, st\<lparr>logged := logged st @ [Executing tool_name params,
                          ErrorExecuting tool_name
                            (Exn ''ValueError'' (''Unknown tool: '' @ tool_name))],
                       ctx := add_error (ctx st)
                          [(''tool'', JStr tool_name),
                           (''error'', JStr (''Unknown tool: '' @ tool_name)),
                           (''type'', JStr ''ValueError'')]\<rparr>)"
  using assms by (simp add: execute_tool_def on_exception_def)

text \<open>On a transport that raises instances of \<open>Exception\<close> only, \<open>execute_tool\<close> always
  returns, and it is the function above.\<close>

lemma execute_tool_as_raising:
  "execute_tool_raising (transport_of ev) (uuid4 ev) tool_name params st
     = returns (execute_tool ev tool_name params st)"
  by (auto simp: execute_tool_raising_def execute_tool_def transport_of_def returns_def Let_def
        split: option.splits prod.splits sum.splits)

text \<open>
  C4, as the code has it. For a registered tool, \<open>execute_tool\<close> returns the validated
  result and appends it to the results of the context when the transport call answers with
  status 200 and the body validates. When the call answers with any other status, other 2xx
  codes included, it returns no result and appends one entry with the keys tool, error and
  details (no kind) to the errors. When the call raises an instance of \<open>Exception\<close>
  (network failure, timeout), or the body of a 200 answer does not validate, it returns no
  result and appends one entry with the keys tool, error and type; nothing is raised. An
  exception that is not an instance of \<open>Exception\<close> is not caught: it leaves
  \<open>execute_tool\<close> and nothing is recorded.
\<close>

theorem execute_tool_outcomes:
  assumes reg: "get_intent_by_name tool_name = Some i"
      and uid: "new_uuid (world st) = (u, w1)"
      and call: "call w1 (http_method i) (endpoint i) params
                  [(''X-Conversation-ID'', conversation_id (ctx st)),
                   (''X-Message-ID'', ''msg-'' @ u),
                   (''X-User-ID'', user_id (ctx st)),
                   (''X-Session-ID'', session_id (ctx st))] = (event, w2)"
      and run: "execute_tool_raising call new_uuid tool_name params st = (res, st')"
  shows "case event of
           Answers resp \<Rightarrow>
             if status_code resp = 200 then
               (case validated resp of
                  Inr r \<Rightarrow>
                    res = Inr (Some r) \<and> results (ctx st') = results (ctx st) @ [r]
                    \<and> errors (ctx st') = errors (ctx st)
                | Inl e \<Rightarrow>
                    res = Inr None \<and> results (ctx st') = results (ctx st)
                    \<and> errors (ctx st') = errors (ctx st) @
                        [ [(''tool'', JStr tool_name), (''error'', JStr (exn_str e)),
                          (''type'', JStr (exn_type e))] ])
             else
               res = Inr None \<and> results (ctx st') = results (ctx st)
               \<and> errors (ctx st') = errors (ctx st) @
                   [ [(''tool'', JStr tool_name),
                     (''error'', JStr (''HTTP '' @ str_int (status_code resp))),
                     (''details'', JStr (text_body resp))] ]
         | RaisesException e \<Rightarrow>
             res = Inr None \<and> results (ctx st') = results (ctx st)
             \<and> errors (ctx st') = errors (ctx st) @
                 [ [(''tool'', JStr tool_name), (''error'', JStr (exn_str e)),
                   (''type'', JStr (exn_type e))] ]
         | RaisesBaseException e \<Rightarrow>
             res = Inl e \<and> results (ctx st') = results (ctx st)
             \<and> errors (ctx st') = errors (ctx st)"
  using assms
  by (auto simp: execute_tool_raising_def on_exception_def add_error_def add_result_def Let_def
        returns_def split: sum.splits transport_event.splits)

theorem execute_tool_outcomes_witness:
  "execute_tool_raising (ends_with (Answers \<lparr>status_code = 200, text_body = ''OK'',
        validated = Inr repository_result\<rparr>)) fixed_uuid ''create_repository'' [] start_state
     = (Inr (Some repository_result),
        start_state\<lparr>logged := [Executing ''create_repository'' [] ],
                     ctx := empty_context\<lparr>results := [repository_result]\<rparr>\<rparr>)
   \<and> execute_tool_raising (ends_with (RaisesException (Exn ''TimeoutError'' ''timed out'')))
        fixed_uuid ''create_repository'' [] start_state
     = (Inr None,
        start_state\<lparr>logged := [Executing ''create_repository'' [],
                        ErrorExecuting ''create_repository'' (Exn ''TimeoutError'' ''timed out'')],
                     ctx := empty_context\<lparr>errors :=
                       [ [(''tool'', JStr ''create_repository''), (''error'', JStr ''timed out''),
                         (''type'', JStr ''TimeoutError'')] ]\<rparr>\<rparr>)
   \<and> fst (execute_tool_raising (ends_with (RaisesBaseException (Exn ''CancelledError'' [])))
        fixed_uuid ''create_repository'' [] start_state)
     = Inl (Exn ''CancelledError'' [])"
proof -
  let ?i = "\<lparr>intent_name = ''create_repository'', endpoint = ''/github/create-repo'',
           http_method = ''POST'', tool_type = CREATOR\<rparr>"
  let ?u = "''00000000-0000-4000-8000-000000000000''"
  let ?h = "[(''X-Conversation-ID'', conversation_id (ctx start_state)),
              (''X-Message-ID'', ''msg-'' @ ?u),
              (''X-User-ID'', user_id (ctx start_state)),
              (''X-Session-ID'', session_id (ctx start_state))]"
  let ?ok = "Answers \<lparr>status_code = 200, text_body = ''OK'', validated = Inr repository_result\<rparr>"
  let ?to = "RaisesException (Exn ''TimeoutError'' ''timed out'')"
  let ?ca = "RaisesBaseException (Exn ''CancelledError'' [])"
  let ?run = "\<lambda>x. execute_tool_raising (ends_with x) fixed_uuid ''create_repository'' [] start_state"
  have reg: "get_intent_by_name ''create_repository'' = Some ?i"
    by (rule registry_create_repository)
  have u: "fixed_uuid (world start_state) = (?u, ())" by (simp add: fixed_uuid_def)
  have c: "\<And>x. ends_with x () (http_method ?i) (endpoint ?i) [] ?h = (x, ())"
    by (simp add: ends_with_def)
  have r: "\<And>x. ?run x = (fst (?run x), snd (?run x))" by simp
  note c_ok = c [of ?ok] and r_ok = r [of ?ok]
  note c_to = c [of ?to] and r_to = r [of ?to]
  note c_ca = c [of ?ca] and r_ca = r [of ?ca]
  note a = execute_tool_outcomes [OF reg u c_ok r_ok]
  note b = execute_tool_outcomes [OF reg u c_to r_to]
  note d = execute_tool_outcomes [OF reg u c_ca r_ca]
  have eqs: "snd (?run ?ok) = start_state\<lparr>logged := [Executing ''create_repository'' [] ],
                     ctx := empty_context\<lparr>results := [repository_result]\<rparr>\<rparr>"
    "snd (?run ?to) = start_state\<lparr>logged := [Executing ''create_repository'' [],
                        ErrorExecuting ''create_repository'' (Exn ''TimeoutError'' ''timed out'')],
                     ctx := empty_context\<lparr>errors :=
                       [ [(''tool'', JStr ''create_repository''), (''error'', JStr ''timed out''),
                         (''type'', JStr ''TimeoutError'')] ]\<rparr>\<rparr>"
    by (simp_all add: execute_tool_raising_def registry_create_repository ends_with_def
          fixed_uuid_def returns_def on_exception_def start_state_def add_result_def
          add_error_def empty_context_def)
  from a b d eqs show ?thesis by (simp add: prod_eq_iff)
qed

theorem execute_tool_201_counterexample:
  "fst (execute_tool (always_env (http_status 201 ''Created'' (sample_result ''create_github_repository'' False [] (JObj []))))
         ''create_repository'' [] start_state) = None
   \<and> results (ctx (snd (execute_tool (always_env (http_status 201 ''Created'' (sample_result ''create_github_repository'' False [] (JObj []))))
         ''create_repository'' [] start_state))) = []
   \<and> errors (ctx (snd (execute_tool (always_env (http_status 201 ''Created'' (sample_result ''create_github_repository'' False [] (JObj []))))
         ''create_repository'' [] start_state)))
      = [ [(''tool'', JStr ''create_repository''), (''error'', JStr ''HTTP 201''),
          (''details'', JStr ''Created'')] ]"
proof -
  have s: "str_int 201 = ''201''" by code_simp
  show ?thesis
    by (simp add: execute_tool_def registry_create_repository always_env_def scripted_env_def
        http_status_def start_state_def empty_context_def add_error_def s)
qed

subsection \<open>Chain executor: the bound on the chain\<close>

lemma chain_loop_bounded:
  "its \<le> len \<Longrightarrow> len \<le> bound \<Longrightarrow>
   iterations (chain_loop ev bound strategy ff acc cur len its st) \<le> bound
   \<and> chain_length (chain_loop ev bound strategy ff acc cur len its st) \<le> bound"
proof (induction ev bound strategy ff acc cur len its st rule: chain_loop.induct)
  case (1 ev bound strategy ff acc cur len its st)
  show ?case
  proof (cases cur)
    case None
    with 1 show ?thesis by (simp add: chain_loop.simps)
  next
    case (Some c)
    show ?thesis
    proof (cases "len < bound")
      case False
      with Some 1 show ?thesis by (simp add: chain_loop.simps)
    next
      case True
      with Some 1 show ?thesis
        by (subst (1 2) chain_loop.simps) (auto simp: Let_def split: option.splits)
    qed
  qed
qed

text \<open>
  C1. \<open>execute_chain\<close> is a total function (its loop is defined with a termination proof,
  the measure being \<open>max_chain_length - chain_length\<close>), and for every initial result,
  state, environment, strategy and filter the number of times the body of its loop is
  entered is at most \<open>max_chain_length\<close>, as is the final value of \<open>chain_length\<close>;
  nothing is assumed about the suggestions, so cycles are covered.
\<close>

theorem execute_chain_bounded:
  "iterations (execute_chain_run ex ev initial_result strategy filter_func st)
     \<le> max_chain_length ex
   \<and> chain_length (execute_chain_run ex ev initial_result strategy filter_func st)
     \<le> max_chain_length ex"
  unfolding execute_chain_run_def by (rule chain_loop_bounded) simp_all

text \<open>On a cycle, under the default bound, the loop runs ten times and stops: eleven results,
  ten executions.\<close>

theorem execute_chain_bounded_witness:
  "max_chain_length ToolChainExecutor_init = 10
   \<and> iterations (execute_chain_run ToolChainExecutor_init
         (always_env (ok_response looping_result)) looping_result SEQUENTIAL None start_state) = 10
   \<and> length (chain_results (execute_chain_run ToolChainExecutor_init
         (always_env (ok_response looping_result)) looping_result SEQUENTIAL None start_state)) = 11
   \<and> iterations (execute_chain_run ToolChainExecutor_init
         (always_env (ok_response looping_result)) looping_result SEQUENTIAL None start_state)
       \<le> max_chain_length ToolChainExecutor_init"
proof -
  have a: "max_chain_length ToolChainExecutor_init = 10"
    by (simp add: ToolChainExecutor_init_def)
  have b: "iterations (execute_chain_run ToolChainExecutor_init
         (always_env (ok_response looping_result)) looping_result SEQUENTIAL None start_state) = 10"
    by code_simp
  have c: "length (chain_results (execute_chain_run ToolChainExecutor_init
         (always_env (ok_response looping_result)) looping_result SEQUENTIAL None start_state)) = 11"
    by code_simp
  from a b c execute_chain_bounded [of ToolChainExecutor_init
      "always_env (ok_response looping_result)" looping_result SEQUENTIAL None start_state]
  show ?thesis by simp
qed

subsection \<open>Chain executor: the strategies\<close>

lemma invoked_append: "invoked (xs @ ys) = invoked xs @ invoked ys"
  by (induction xs rule: invoked.induct) simp_all

lemma execute_tool_effect:
  assumes "execute_tool ev tool_name params st = (res, st')"
  shows "invoked (logged st') = invoked (logged st) @ [tool_name]
       \<and> (case res of
             Some r \<Rightarrow> results (ctx st') = results (ctx st) @ [r]
                       \<and> errors (ctx st') = errors (ctx st)
           | None \<Rightarrow> results (ctx st') = results (ctx st)
                     \<and> (\<exists>e. errors (ctx st') = errors (ctx st) @ [e]
                             \<and> map_of e ''tool'' = Some (JStr tool_name)))"
  using assms
  by (auto simp: execute_tool_def on_exception_def add_error_def add_result_def Let_def
        invoked_append split: sum.splits option.splits prod.splits if_splits)

lemma registry_list_files:
  "get_intent_by_name ''list_files'' =
     Some \<lparr>intent_name = ''list_files'', endpoint = ''/repos/list-files/{repo_path}'',
           http_method = ''GET'', tool_type = RETRIEVER\<rparr>"
  by (simp add: get_intent_by_name_def INTENT_CLASSIFICATIONS_def mk_intent_def)

lemma registry_merge_branches:
  "get_intent_by_name ''merge_branches'' =
     Some \<lparr>intent_name = ''merge_branches'', endpoint = ''/repos/merge'',
           http_method = ''POST'', tool_type = MODIFIER\<rparr>"
  by (simp add: get_intent_by_name_def INTENT_CLASSIFICATIONS_def mk_intent_def)

lemma registry_check_status:
  "get_intent_by_name ''check_status'' =
     Some \<lparr>intent_name = ''check_status'', endpoint = ''/repos/status/{repo_path}'',
           http_method = ''GET'', tool_type = ANALYZER\<rparr>"
  by (simp add: get_intent_by_name_def INTENT_CLASSIFICATIONS_def mk_intent_def)

lemmas fixture_defs = files_env_def table_env_def scripted_env_def ok_response_def
  start_state_def empty_context_def add_result_def add_error_def on_exception_def
  suggestion_def

lemma files_env_list_files:
  "execute_tool files_env ''list_files'' [] st =
     (Some list_files_result,
      st\<lparr>logged := logged st @ [Executing ''list_files'' [] ],
         ctx := add_result (ctx st) list_files_result\<rparr>)"
  by (simp add: execute_tool_def registry_list_files fixture_defs)

text \<open>A suggestion without a tool-name hint is passed over: nothing is executed for it.\<close>

lemma sequential_skips_hintless:
  assumes "\<not> truthy_str (toolNameHint s)"
  shows "execute_sequential ev (s # rest) st = execute_sequential ev rest st"
  using assms by (cases "toolNameHint s") (simp_all add: execute_sequential_def)

text \<open>
  C5. Under the Sequential strategy, when the first suggestion of a batch carries a tool-name
  hint, its execution succeeds and its result does not request post-processing, the batch
  returns that result alone and leaves the state as that one execution left it: the log shows
  one more invocation, of that tool, so no later suggestion of the batch is attempted.
\<close>

theorem sequential_stops_after_terminal:
  assumes hint: "toolNameHint a = Some tool_name" "tool_name \<noteq> []"
      and ok: "execute_tool ev tool_name (or_empty (parameters a)) st = (Some r, st1)"
      and fin: "\<not> requiresPostProcessing (metadata r)"
  shows "execute_sequential ev (a # rest) st = ([r], st1)
       \<and> invoked (logged st1) = invoked (logged st) @ [tool_name]"
  using assms execute_tool_effect [OF ok]
  by (simp add: execute_sequential_def)

theorem sequential_stops_after_terminal_witness:
  "execute_sequential files_env
     [suggestion RETRIEVER (Some ''list_files''), suggestion MODIFIER (Some ''merge_branches'')]
     start_state
   = ([list_files_result],
      start_state\<lparr>logged := [Executing ''list_files'' [] ],
                  ctx := add_result empty_context list_files_result\<rparr>)
   \<and> invoked (logged (snd (execute_sequential files_env
     [suggestion RETRIEVER (Some ''list_files''), suggestion MODIFIER (Some ''merge_branches'')]
     start_state))) = [''list_files'']"
proof -
  let ?a = "suggestion RETRIEVER (Some ''list_files'')"
  let ?st1 = "start_state\<lparr>logged := [Executing ''list_files'' [] ],
                  ctx := add_result empty_context list_files_result\<rparr>"
  have h: "toolNameHint ?a = Some ''list_files''" by (simp add: suggestion_def)
  have n: "''list_files'' \<noteq> []" by simp
  have ok: "execute_tool files_env ''list_files'' (or_empty (parameters ?a)) start_state
              = (Some list_files_result, ?st1)"
    by (simp add: files_env_list_files suggestion_def start_state_def)
  have fin: "\<not> requiresPostProcessing (metadata list_files_result)"
    by (simp add: list_files_result_def sample_result_def)
  from sequential_stops_after_terminal [OF h n ok fin, of "[suggestion MODIFIER (Some ''merge_branches'')]"]
  show ?thesis by (simp add: start_state_def)
qed

text \<open>The Parallel strategy. \<open>execute_tool\<close> is its first half followed by its second
  half; each half appends to the log and to the lists of the context and reads neither, and
  the first half alone touches the outside world. Hence a run of \<open>gather\<close> under any
  schedule returns what the calls made one by one return, and leaves the same state up to the
  order of the entries.\<close>

lemma execute_tool_split:
  "execute_tool ev n p st =
     (case start_tool ev n p st of
        (Finished r, st1) \<Rightarrow> (r, st1)
      | (Awaiting a, st1) \<Rightarrow> finish_tool n a st1)"
  by (simp add: execute_tool_def start_tool_def finish_tool_def Let_def
        split: option.splits prod.splits)

lemma appended_appended:
  "appended l rs es (appended l' rs' es' st) = appended (l' @ l) (rs' @ rs) (es' @ es) st"
  by (simp add: appended_def)

lemma appended_nothing: "appended [] [] [] st = st"
  by (simp add: appended_def)

lemma appended_world: "appended l rs es (st\<lparr>world := w\<rparr>) = (appended l rs es st)\<lparr>world := w\<rparr>"
  by (simp add: appended_def)

lemma finish_tool_form:
  "\<exists>r l rs es. invoked l = [] \<and> (\<forall>st::'w state. finish_tool n a st = (r, appended l rs es st))"
proof (cases a)
  case (Inl e)
  have "invoked [ErrorExecuting n e] = []" by simp
  moreover have "\<forall>st::'w state. finish_tool n a st =
      (None, appended [ErrorExecuting n e] []
         [ [(''tool'', JStr n), (''error'', JStr (exn_str e)), (''type'', JStr (exn_type e))] ] st)"
    using Inl by (simp add: finish_tool_def on_exception_def appended_def add_error_def)
  ultimately show ?thesis by blast
next
  case (Inr resp)
  show ?thesis
  proof (cases "status_code resp = 200")
    case False
    have "invoked [] = []" by simp
    moreover have "\<forall>st::'w state. finish_tool n a st =
      (None, appended [] []
         [ [(''tool'', JStr n), (''error'', JStr (''HTTP '' @ str_int (status_code resp))),
            (''details'', JStr (text_body resp))] ] st)"
      using Inr False by (simp add: finish_tool_def appended_def add_error_def)
    ultimately show ?thesis by blast
  next
    case True
    show ?thesis
    proof (cases "validated resp")
      case (Inl e)
      have "invoked [ErrorExecuting n e] = []" by simp
      moreover have "\<forall>st::'w state. finish_tool n a st =
        (None, appended [ErrorExecuting n e] []
           [ [(''tool'', JStr n), (''error'', JStr (exn_str e)), (''type'', JStr (exn_type e))] ] st)"
        using Inr True Inl
        by (simp add: finish_tool_def on_exception_def appended_def add_error_def)
      ultimately show ?thesis by blast
    next
      case (Inr result)
      have "invoked [] = []" by simp
      moreover have "\<forall>st::'w state. finish_tool n a st = (Some result, appended [] [result] [] st)"
        using \<open>a = Inr resp\<close> True Inr
        by (simp add: finish_tool_def appended_def add_result_def)
      ultimately show ?thesis by blast
    qed
  qed
qed

text \<open>What the first half reads of the state: the outside world and the identifiers of the
  context.\<close>

lemma start_tool_form:
  "\<exists>s l es w. invoked l = [n] \<and>
     (\<forall>st'. world st' = world st
            \<and> (ctx st')\<lparr>results := [], errors := []\<rparr> = (ctx st)\<lparr>results := [], errors := []\<rparr>
        \<longrightarrow> start_tool ev n p st' = (s, (appended l [] es st')\<lparr>world := w\<rparr>))"
proof (cases "get_intent_by_name n")
  case None
  let ?e = "Exn ''ValueError'' (''Unknown tool: '' @ n)"
  have "invoked [Executing n p, ErrorExecuting n ?e] = [n]" by simp
  moreover have "\<forall>st'. world st' = world st
        \<longrightarrow> start_tool ev n p st' =
          (Finished None, (appended [Executing n p, ErrorExecuting n ?e] []
             [ [(''tool'', JStr n), (''error'', JStr (exn_str ?e)), (''type'', JStr (exn_type ?e))] ]
             st')\<lparr>world := world st\<rparr>)"
    using None by (auto simp: start_tool_def on_exception_def appended_def add_error_def)
  ultimately show ?thesis by blast
next
  case (Some i)
  obtain u w1 where u: "uuid4 ev (world st) = (u, w1)" by (cases "uuid4 ev (world st)")
  let ?h = "[(''X-Conversation-ID'', conversation_id (ctx st)), (''X-Message-ID'', ''msg-'' @ u),
             (''X-User-ID'', user_id (ctx st)), (''X-Session-ID'', session_id (ctx st))]"
  obtain a w2 where a: "request ev w1 (http_method i) (endpoint i) p ?h = (a, w2)"
    by (cases "request ev w1 (http_method i) (endpoint i) p ?h")
  have "invoked [Executing n p] = [n]" by simp
  moreover have "\<forall>st'. world st' = world st
            \<and> (ctx st')\<lparr>results := [], errors := []\<rparr> = (ctx st)\<lparr>results := [], errors := []\<rparr>
        \<longrightarrow> start_tool ev n p st' = (Awaiting a, (appended [Executing n p] [] [] st')\<lparr>world := w2\<rparr>)"
  proof (intro allI impI)
    fix st' :: "'a state"
    assume h: "world st' = world st
            \<and> (ctx st')\<lparr>results := [], errors := []\<rparr> = (ctx st)\<lparr>results := [], errors := []\<rparr>"
    then have "conversation_id ((ctx st')\<lparr>results := [], errors := []\<rparr>)
                 = conversation_id ((ctx st)\<lparr>results := [], errors := []\<rparr>)"
        "user_id ((ctx st')\<lparr>results := [], errors := []\<rparr>)
                 = user_id ((ctx st)\<lparr>results := [], errors := []\<rparr>)"
        "session_id ((ctx st')\<lparr>results := [], errors := []\<rparr>)
                 = session_id ((ctx st)\<lparr>results := [], errors := []\<rparr>)"
      by simp_all
    then have ids: "conversation_id (ctx st') = conversation_id (ctx st)"
        "user_id (ctx st') = user_id (ctx st)" "session_id (ctx st') = session_id (ctx st)"
      by simp_all
    show "start_tool ev n p st' = (Awaiting a, (appended [Executing n p] [] [] st')\<lparr>world := w2\<rparr>)"
      using Some u a h ids by (simp add: start_tool_def appended_def)
  qed
  ultimately show ?thesis by blast
qed


lemma same_refl: "same_up_to_order a a"
  by (simp add: same_up_to_order_def)

lemma same_sym: "same_up_to_order a b \<Longrightarrow> same_up_to_order b a"
  by (simp add: same_up_to_order_def)

lemma same_trans: "same_up_to_order a b \<Longrightarrow> same_up_to_order b c \<Longrightarrow> same_up_to_order a c"
  by (simp add: same_up_to_order_def)

lemma same_appended:
  "same_up_to_order a b \<Longrightarrow> same_up_to_order (appended l rs es a) (appended l rs es b)"
  by (simp add: same_up_to_order_def appended_def invoked_append)

lemma same_world:
  "same_up_to_order a b \<Longrightarrow> same_up_to_order (a\<lparr>world := w\<rparr>) (b\<lparr>world := w\<rparr>)"
  by (simp add: same_up_to_order_def)

lemma same_swap:
  "invoked l1 = [] \<or> invoked l2 = [] \<Longrightarrow>
   same_up_to_order (appended l1 r1 e1 (appended l2 r2 e2 a))
                    (appended l2 r2 e2 (appended l1 r1 e1 a))"
  by (auto simp: same_up_to_order_def appended_def invoked_append)

lemma same_reads:
  "same_up_to_order a b \<Longrightarrow>
     world b = world a
     \<and> (ctx b)\<lparr>results := [], errors := []\<rparr> = (ctx a)\<lparr>results := [], errors := []\<rparr>"
  by (simp add: same_up_to_order_def)

lemma execute_tool_cong:
  assumes "same_up_to_order a b"
  shows "fst (execute_tool ev n p a) = fst (execute_tool ev n p b)
       \<and> same_up_to_order (snd (execute_tool ev n p a)) (snd (execute_tool ev n p b))"
proof -
  obtain s l es w where sf: "\<forall>st'. world st' = world a
            \<and> (ctx st')\<lparr>results := [], errors := []\<rparr> = (ctx a)\<lparr>results := [], errors := []\<rparr>
        \<longrightarrow> start_tool ev n p st' = (s, (appended l [] es st')\<lparr>world := w\<rparr>)"
    using start_tool_form [where n=n and ev=ev and st=a and p=p] by blast
  from sf have sa: "start_tool ev n p a = (s, (appended l [] es a)\<lparr>world := w\<rparr>)" by simp
  from sf same_reads [OF assms]
  have sb: "start_tool ev n p b = (s, (appended l [] es b)\<lparr>world := w\<rparr>)" by simp
  have mid: "same_up_to_order ((appended l [] es a)\<lparr>world := w\<rparr>) ((appended l [] es b)\<lparr>world := w\<rparr>)"
    by (intro same_world same_appended assms)
  show ?thesis
  proof (cases s)
    case (Finished r)
    with sa sb mid show ?thesis by (simp add: execute_tool_split)
  next
    case (Awaiting x)
    obtain r l' rs' es' where ff: "\<forall>st::'a state. finish_tool n x st = (r, appended l' rs' es' st)"
      using finish_tool_form [of n x] by blast
    from Awaiting sa sb ff same_appended [OF mid, of l' rs' es']
    show ?thesis by (simp add: execute_tool_split)
  qed
qed

lemma complete_all_form:
  "\<exists>C l rs es. invoked l = [] \<and>
     (\<forall>ret (st::'w state). complete_all ws ret st = (ret @ C, appended l rs es st))"
proof (induction ws)
  case Nil
  have "invoked [] = []" by simp
  moreover have "\<forall>ret (st::'w state). complete_all [] ret st = (ret @ [], appended [] [] [] st)"
    by (simp add: appended_nothing)
  ultimately show ?case by blast
next
  case (Cons x ws)
  obtain k n a where x: "x = (k, n, a)" by (cases x)
  obtain r l rs es where f: "invoked l = []"
      "\<forall>st::'w state. finish_tool n a st = (r, appended l rs es st)"
    using finish_tool_form [of n a] by blast
  from Cons.IH obtain C l' rs' es' where c: "invoked l' = []"
      "\<forall>ret (st::'w state). complete_all ws ret st = (ret @ C, appended l' rs' es' st)" by blast
  have "invoked (l @ l') = []" using f c by (simp add: invoked_append)
  moreover have "\<forall>ret (st::'w state). complete_all (x # ws) ret st
        = (ret @ ((k, r) # C), appended (l @ l') (rs @ rs') (es @ es') st)"
    using x f c by (simp add: appended_appended)
  ultimately show ?case by blast
qed

lemma run_rest_cong:
  "same_up_to_order a b \<Longrightarrow> mset R = mset R' \<Longrightarrow>
     mset (fst (run_rest ev todo R a)) = mset (fst (run_rest ev todo R' b))
     \<and> same_up_to_order (snd (run_rest ev todo R a)) (snd (run_rest ev todo R' b))"
proof (induction todo arbitrary: R R' a b)
  case Nil
  then show ?case by simp
next
  case (Cons t todo)
  obtain k n p where t: "t = (k, n, p)" by (cases t)
  note c = execute_tool_cong [OF Cons.prems(1), of ev n p]
  obtain r a1 where ea: "execute_tool ev n p a = (r, a1)" by (cases "execute_tool ev n p a")
  obtain r' b1 where eb: "execute_tool ev n p b = (r', b1)" by (cases "execute_tool ev n p b")
  from c ea eb have rr: "r' = r" and s1: "same_up_to_order a1 b1" by simp_all
  have m: "mset (R @ [(k, r)]) = mset (R' @ [(k, r)])" using Cons.prems(2) by simp
  from Cons.IH [OF s1 m] t ea eb rr show ?case by simp
qed


lemma complete_all_append:
  "complete_all (xs @ ys) ret st =
     (case complete_all xs ret st of (r1, s1) \<Rightarrow> complete_all ys r1 s1)"
  by (induction xs arbitrary: ret st) (auto split: prod.splits)

lemma same_swap_world:
  "invoked l1 = [] \<or> invoked l2 = [] \<Longrightarrow>
   same_up_to_order (appended l1 r1 e1 ((appended l2 r2 e2 a)\<lparr>world := w\<rparr>))
                    ((appended l2 r2 e2 (appended l1 r1 e1 a))\<lparr>world := w\<rparr>)"
  by (auto simp: same_up_to_order_def appended_def invoked_append)

lemma appended_reads:
  "world (appended l rs es st) = world st
   \<and> (ctx (appended l rs es st))\<lparr>results := [], errors := []\<rparr>
       = (ctx st)\<lparr>results := [], errors := []\<rparr>"
  by (simp add: appended_def)

lemma find_some_member: "find P xs = Some x \<Longrightarrow> P x \<and> x \<in> set xs"
  by (induction xs) (auto split: if_splits)

lemma run_events_wind_up:
  "distinct (map fst waiting @ map fst todo) \<Longrightarrow>
   (case run_events ev es todo waiting ret st of
      (t1, w1, r1, s1) \<Rightarrow>
        mset (fst (wind_up ev t1 w1 r1 s1)) = mset (fst (wind_up ev todo waiting ret st))
        \<and> same_up_to_order (snd (wind_up ev t1 w1 r1 s1))
                            (snd (wind_up ev todo waiting ret st)))"
proof (induction ev es todo waiting ret st rule: run_events.induct)
  case (1 ev todo waiting returned st)
  show ?case by (simp add: same_refl)
next
  case (2 ev es waiting returned st)
  then show ?case by simp
next
  case (3 ev es k n p todo waiting returned st)
  obtain s l es' w where lf: "invoked l = [n]" and sf: "\<forall>st'. world st' = world st
            \<and> (ctx st')\<lparr>results := [], errors := []\<rparr> = (ctx st)\<lparr>results := [], errors := []\<rparr>
        \<longrightarrow> start_tool ev n p st' = (s, (appended l [] es' st')\<lparr>world := w\<rparr>)"
    using start_tool_form [where n=n and ev=ev and st=st and p=p] by blast
  obtain C lc rc ec where lc: "invoked lc = []"
      and cf: "\<forall>ret (st::'a state). complete_all waiting ret st = (ret @ C, appended lc rc ec st)"
    using complete_all_form [of waiting] by blast
  let ?st1 = "(appended l [] es' st)\<lparr>world := w\<rparr>"
  let ?S = "appended lc rc ec st"
  let ?S1 = "(appended l [] es' ?S)\<lparr>world := w\<rparr>"
  from sf have s0: "start_tool ev n p st = (s, ?st1)" by simp
  from sf appended_reads [of lc rc ec st] have sS: "start_tool ev n p ?S = (s, ?S1)" by simp
  have sw: "same_up_to_order (appended lc rc ec ?st1) ?S1"
    using same_swap_world [where ?l1.0=lc and ?l2.0=l and ?r1.0=rc and ?r2.0="[]" and ?e1.0=ec and ?e2.0=es' and a=st and w=w] lc by simp
  show ?case
  proof (cases s)
    case (Finished r)
    have d: "distinct (map fst waiting @ map fst todo)" using "3.prems" by simp
    note ih = "3.IH" (1) [OF s0 [unfolded Finished, symmetric] refl d]
    have a: "wind_up ev todo waiting (returned @ [(k, r)]) ?st1
               = run_rest ev todo (returned @ [(k, r)] @ C) (appended lc rc ec ?st1)"
      using cf by (simp add: wind_up_def)
    have b: "wind_up ev ((k, n, p) # todo) waiting returned st
               = run_rest ev todo (returned @ C @ [(k, r)]) ?S1"
      using cf sS Finished by (simp add: wind_up_def execute_tool_split)
    have m: "mset (returned @ [(k, r)] @ C) = mset (returned @ C @ [(k, r)])" by simp
    note c = run_rest_cong [OF sw m, of ev todo]
    from ih s0 Finished a b c show ?thesis
      by (auto split: prod.splits intro: same_trans)
  next
    case (Awaiting x)
    obtain r lf rf ef where ff: "\<forall>st::'a state. finish_tool n x st = (r, appended lf rf ef st)"
      using finish_tool_form [of n x] by blast
    have d: "distinct (map fst (waiting @ [(k, n, x)]) @ map fst todo)" using "3.prems" by simp
    note ih = "3.IH" (2) [OF s0 [unfolded Awaiting, symmetric] refl d]
    have a: "wind_up ev todo (waiting @ [(k, n, x)]) returned ?st1
               = run_rest ev todo (returned @ C @ [(k, r)])
                   (appended lf rf ef (appended lc rc ec ?st1))"
      using cf ff by (simp add: wind_up_def complete_all_append)
    have b: "wind_up ev ((k, n, p) # todo) waiting returned st
               = run_rest ev todo (returned @ C @ [(k, r)]) (appended lf rf ef ?S1)"
      using cf sS Awaiting ff by (simp add: wind_up_def execute_tool_split)
    note c = run_rest_cong [OF same_appended [OF sw, of lf rf ef] refl, of ev todo
               "returned @ C @ [(k, r)]"]
    from ih s0 Awaiting a b c show ?thesis
      by (auto split: prod.splits intro: same_trans)
  qed
next
  case (4 ev k es todo waiting returned st)
  show ?case
  proof (cases "find (\<lambda>w. fst w = k) waiting")
    case None
    with 4 show ?thesis by simp
  next
    case (Some t)
    obtain j n a where t: "t = (j, n, a)" by (cases t)
    from find_some_member [OF Some] t have jk: "j = k" and mem: "(j, n, a) \<in> set waiting"
      by auto
    from mem obtain xs ys where w: "waiting = xs @ (k, n, a) # ys"
      using jk by (auto dest: split_list)
    from "4.prems" w have dx: "\<forall>x \<in> set xs. fst x \<noteq> k" and dy: "\<forall>y \<in> set ys. fst y \<noteq> k"
      by auto
    then have fl: "filter (\<lambda>w. fst w \<noteq> k) waiting = xs @ ys"
      using w by simp
    obtain r lf rf ef where lf: "invoked lf = []"
        and ff: "\<forall>st::'a state. finish_tool n a st = (r, appended lf rf ef st)"
      using finish_tool_form [of n a] by blast
    obtain Cx lx rx ex where lx: "invoked lx = []"
        and cx: "\<forall>ret (st::'a state). complete_all xs ret st = (ret @ Cx, appended lx rx ex st)"
      using complete_all_form [of xs] by blast
    obtain Cy ly ry ey where
        cy: "\<forall>ret (st::'a state). complete_all ys ret st = (ret @ Cy, appended ly ry ey st)"
      using complete_all_form [of ys] by blast
    let ?st1 = "appended lf rf ef st"
    have f0: "finish_tool n a st = (r, ?st1)" using ff by simp
    have d: "distinct (map fst (filter (\<lambda>w. fst w \<noteq> k) waiting) @ map fst todo)"
      using "4.prems" w fl by auto
    note ih = "4.IH" (2) [OF Some [unfolded t] refl refl f0 [symmetric] d]
    have a: "wind_up ev todo (xs @ ys) (returned @ [(k, r)]) ?st1
               = run_rest ev todo (returned @ [(k, r)] @ Cx @ Cy)
                   (appended ly ry ey (appended lx rx ex ?st1))"
      using cx cy by (simp add: wind_up_def complete_all_append)
    have b: "wind_up ev todo waiting returned st
               = run_rest ev todo (returned @ Cx @ [(k, r)] @ Cy)
                   (appended ly ry ey (appended lf rf ef (appended lx rx ex st)))"
      using cx cy ff w by (simp add: wind_up_def complete_all_append)
    have sw: "same_up_to_order (appended ly ry ey (appended lx rx ex ?st1))
                (appended ly ry ey (appended lf rf ef (appended lx rx ex st)))"
      by (intro same_appended same_swap) (simp add: lf)
    have m: "mset (returned @ [(k, r)] @ Cx @ Cy) = mset (returned @ Cx @ [(k, r)] @ Cy)"
      by simp
    note c = run_rest_cong [OF sw m, of ev todo]
    from ih Some t jk f0 fl a b c show ?thesis
      by (auto split: prod.splits intro: same_trans)
  qed
qed


lemma run_rest_one_by_one:
  "run_rest ev (enumerate k tasks) ret st =
     (case one_by_one ev tasks st of (rs, st2) \<Rightarrow> (ret @ enumerate k rs, st2))"
proof (induction tasks arbitrary: k ret st)
  case Nil
  then show ?case by simp
next
  case (Cons t tasks)
  obtain n p where t: "t = (n, p)" by (cases t)
  show ?case using Cons.IH t by (simp split: prod.splits)
qed

lemma filter_same_key:
  "distinct (map f ys) \<Longrightarrow> y \<in> set ys \<Longrightarrow> filter (\<lambda>x. f y = f x) ys = [y]"
proof (induction ys)
  case Nil
  then show ?case by simp
next
  case (Cons a ys)
  show ?case
  proof (cases "y = a")
    case True
    with Cons.prems have "\<forall>x \<in> set ys. f a \<noteq> f x" by auto
    then have "filter (\<lambda>x. f a = f x) ys = []" by (simp add: filter_empty_conv)
    with True show ?thesis by simp
  next
    case False
    with Cons.prems have "y \<in> set ys" "f y \<noteq> f a" by (auto simp: image_iff)
    with Cons show ?thesis by simp
  qed
qed

lemma single_mset: "mset zs = {#k#} \<Longrightarrow> zs = [k]"
  by (cases zs) auto

lemma sort_key_of_permutation:
  assumes m: "mset xs = mset ys" and d: "distinct (map f ys)" and s: "sorted (map f ys)"
  shows "sort_key f xs = ys"
proof (rule properties_for_sort_key)
  show "mset ys = mset xs" using m by simp
  show "sorted (map f ys)" by (rule s)
  fix k assume k: "k \<in> set ys"
  have "mset (filter (\<lambda>x. f k = f x) xs) = mset (filter (\<lambda>x. f k = f x) ys)"
    using m by simp
  also have "filter (\<lambda>x. f k = f x) ys = [k]" by (rule filter_same_key [OF d k])
  finally have "mset (filter (\<lambda>x. f k = f x) xs) = {#k#}" by (simp del: mset_filter)
  then have "filter (\<lambda>x. f k = f x) xs = [k]" by (rule single_mset)
  then show "filter (\<lambda>x. f k = f x) ys = filter (\<lambda>x. f k = f x) xs"
    using filter_same_key [OF d k] by simp
qed

lemma gather_as_one_by_one:
  "fst (gather ev tasks st) = fst (one_by_one ev tasks st)
   \<and> same_up_to_order (snd (gather ev tasks st)) (snd (one_by_one ev tasks st))"
proof -
  obtain rs st0 where o: "one_by_one ev tasks st = (rs, st0)"
    by (cases "one_by_one ev tasks st")
  have len: "length rs = length tasks"
    using o by (induction tasks arbitrary: rs st st0) (auto split: prod.splits)
  have w0: "wind_up ev (enumerate 0 tasks) [] [] st = (enumerate 0 rs, st0)"
    using o by (simp add: wind_up_def run_rest_one_by_one)
  obtain t1 w1 r1 s1 where
    r: "run_events ev (completion_order ev (world st) (length tasks)) (enumerate 0 tasks)
          [] [] st = (t1, w1, r1, s1)"
    by (metis prod_cases4)
  obtain R S where w: "wind_up ev t1 w1 r1 s1 = (R, S)" by (cases "wind_up ev t1 w1 r1 s1")
  have d: "distinct (map fst ([] :: (nat \<times> string \<times> (exn + http_response)) list)
              @ map fst (enumerate 0 tasks))"
    by simp
  from run_events_wind_up [OF d, where ev=ev and st=st and ret="[]"
         and es="completion_order ev (world st) (length tasks)"]
       r w w0
  have m: "mset R = mset (enumerate 0 rs)" and sm: "same_up_to_order S st0" by simp_all
  have "sort_key fst R = enumerate 0 rs"
    by (rule sort_key_of_permutation [OF m]) simp_all
  then have "map snd (sort_key fst R) = rs" by simp
  with r w o sm show ?thesis by (simp add: gather_def)
qed


lemma parallel_tasks_eligible:
  "parallel_tasks suggs =
     map (\<lambda>s. (the (toolNameHint s), or_empty (parameters s))) (filter eligible_for_parallel suggs)"
  by (induction suggs) (auto simp: eligible_for_parallel_def split: option.splits)

lemma one_by_one_effect:
  "one_by_one ev tasks st = (rs, st') \<Longrightarrow>
     length rs = length tasks
     \<and> invoked (logged st') = invoked (logged st) @ map fst tasks
     \<and> results (ctx st') = results (ctx st) @ not_none rs
     \<and> (\<exists>es. errors (ctx st') = errors (ctx st) @ es
             \<and> length es + length (not_none rs) = length tasks
             \<and> (\<forall>e \<in> set es. \<exists>t \<in> set tasks. map_of e ''tool'' = Some (JStr (fst t))))"
proof (induction tasks arbitrary: st rs st')
  case Nil
  then show ?case by simp
next
  case (Cons t tasks)
  obtain n p where t: "t = (n, p)" by (cases t)
  obtain r st1 where e: "execute_tool ev n p st = (r, st1)" by (cases "execute_tool ev n p st")
  obtain rs1 st2 where g: "one_by_one ev tasks st1 = (rs1, st2)" by (cases "one_by_one ev tasks st1")
  from Cons.prems t e g have rs: "rs = r # rs1" and st': "st' = st2" by simp_all
  note ih = Cons.IH [OF g]
  note ef = execute_tool_effect [OF e]
  from ih obtain es where es: "errors (ctx st2) = errors (ctx st1) @ es"
      "length es + length (not_none rs1) = length tasks"
      "\<forall>e \<in> set es. \<exists>t \<in> set tasks. map_of e ''tool'' = Some (JStr (fst t))"
    by blast
  show ?case
  proof (cases r)
    case None
    with ef obtain e0 where e0: "errors (ctx st1) = errors (ctx st) @ [e0]"
        "map_of e0 ''tool'' = Some (JStr n)" "results (ctx st1) = results (ctx st)"
      by auto
    have "errors (ctx st') = errors (ctx st) @ (e0 # es)" using es e0 st' by simp
    moreover have "length (e0 # es) + length (not_none rs) = length (t # tasks)"
      using es None rs by simp
    moreover have "\<forall>e \<in> set (e0 # es). \<exists>t' \<in> set (t # tasks). map_of e ''tool'' = Some (JStr (fst t'))"
      using es e0 t by auto
    ultimately have "\<exists>es'. errors (ctx st') = errors (ctx st) @ es'
             \<and> length es' + length (not_none rs) = length (t # tasks)
             \<and> (\<forall>e \<in> set es'. \<exists>t' \<in> set (t # tasks). map_of e ''tool'' = Some (JStr (fst t')))"
      by blast
    then show ?thesis using ih ef None rs st' t e0 by simp
  next
    case (Some x)
    with ef have r1: "results (ctx st1) = results (ctx st) @ [x]"
        "errors (ctx st1) = errors (ctx st)" by auto
    have "errors (ctx st') = errors (ctx st) @ es" using es r1 st' by simp
    moreover have "length es + length (not_none rs) = length (t # tasks)"
      using es Some rs by simp
    moreover have "\<forall>e \<in> set es. \<exists>t' \<in> set (t # tasks). map_of e ''tool'' = Some (JStr (fst t'))"
      using es by auto
    ultimately have "\<exists>es'. errors (ctx st') = errors (ctx st) @ es'
             \<and> length es' + length (not_none rs) = length (t # tasks)
             \<and> (\<forall>e \<in> set es'. \<exists>t' \<in> set (t # tasks). map_of e ''tool'' = Some (JStr (fst t')))"
      by blast
    then show ?thesis using ih ef Some rs st' t r1 by simp
  qed
qed

lemma start_tool_keeps:
  "\<exists>es. results (ctx (snd (start_tool ev n p st))) = results (ctx st)
        \<and> errors (ctx (snd (start_tool ev n p st))) = errors (ctx st) @ es"
proof -
  obtain s l es w where "start_tool ev n p st = (s, (appended l [] es st)\<lparr>world := w\<rparr>)"
    using start_tool_form [where n=n and ev=ev and st=st and p=p] by blast
  then show ?thesis by (simp add: appended_def)
qed

lemma finish_tool_keeps:
  "\<exists>rs es. results (ctx (snd (finish_tool n a st))) = results (ctx st) @ rs
        \<and> errors (ctx (snd (finish_tool n a st))) = errors (ctx st) @ es"
proof -
  obtain r l rs es where "finish_tool n a st = (r, appended l rs es st)"
    using finish_tool_form [of n a] by blast
  then show ?thesis by (simp add: appended_def)
qed

lemma execute_tool_keeps:
  "\<exists>rs es. results (ctx (snd (execute_tool ev n p st))) = results (ctx st) @ rs
        \<and> errors (ctx (snd (execute_tool ev n p st))) = errors (ctx st) @ es"
proof -
  obtain r st1 where e: "execute_tool ev n p st = (r, st1)" by (cases "execute_tool ev n p st")
  note ef = execute_tool_effect [OF e]
  show ?thesis
  proof (cases r)
    case None
    with ef obtain e0 where "errors (ctx st1) = errors (ctx st) @ [e0]"
        "results (ctx st1) = results (ctx st)" by auto
    then have "results (ctx st1) = results (ctx st) @ []
        \<and> errors (ctx st1) = errors (ctx st) @ [e0]" by simp
    with e show ?thesis by (metis snd_conv)
  next
    case (Some x)
    with ef have "results (ctx st1) = results (ctx st) @ [x]
        \<and> errors (ctx st1) = errors (ctx st) @ []" by simp
    with e show ?thesis by (metis snd_conv)
  qed
qed

lemma complete_all_keeps:
  "\<exists>rs es. results (ctx (snd (complete_all ws ret st))) = results (ctx st) @ rs
        \<and> errors (ctx (snd (complete_all ws ret st))) = errors (ctx st) @ es"
proof -
  obtain C l rs es where "complete_all ws ret st = (ret @ C, appended l rs es st)"
    using complete_all_form [of ws] by blast
  then show ?thesis by (simp add: appended_def)
qed

lemma run_rest_keeps:
  "\<exists>rs es. results (ctx (snd (run_rest ev todo ret st))) = results (ctx st) @ rs
        \<and> errors (ctx (snd (run_rest ev todo ret st))) = errors (ctx st) @ es"
proof (induction todo arbitrary: ret st)
  case Nil
  then show ?case by simp
next
  case (Cons t todo)
  obtain k n p where t: "t = (k, n, p)" by (cases t)
  obtain r st1 where e: "execute_tool ev n p st = (r, st1)" by (cases "execute_tool ev n p st")
  from execute_tool_keeps [of ev n p st] e obtain rs es where
    1: "results (ctx st1) = results (ctx st) @ rs" "errors (ctx st1) = errors (ctx st) @ es"
    by auto
  from Cons.IH [of "ret @ [(k, r)]" st1] obtain rs' es' where
    2: "results (ctx (snd (run_rest ev todo (ret @ [(k, r)]) st1))) = results (ctx st1) @ rs'"
       "errors (ctx (snd (run_rest ev todo (ret @ [(k, r)]) st1))) = errors (ctx st1) @ es'"
    by auto
  from 1 2 t e show ?case by simp
qed

lemma run_events_keeps:
  "\<exists>rs es.
     results (ctx (snd (snd (snd (run_events ev sched todo waiting ret st)))))
       = results (ctx st) @ rs
     \<and> errors (ctx (snd (snd (snd (run_events ev sched todo waiting ret st)))))
       = errors (ctx st) @ es"
proof (induction ev sched todo waiting ret st rule: run_events.induct)
  case (1 ev todo waiting returned st)
  show ?case by simp
next
  case (2 ev es waiting returned st)
  then show ?case by simp
next
  case (3 ev es k n p todo waiting returned st)
  obtain s st1 where s: "start_tool ev n p st = (s, st1)" by (cases "start_tool ev n p st")
  from start_tool_keeps [of ev n p st] s obtain es1 where
    1: "results (ctx st1) = results (ctx st)" "errors (ctx st1) = errors (ctx st) @ es1"
    by auto
  show ?case
  proof (cases s)
    case (Finished r)
    from "3.IH" (1) [OF s [unfolded Finished, symmetric] refl] 1 s Finished
    show ?thesis by auto
  next
    case (Awaiting x)
    from "3.IH" (2) [OF s [unfolded Awaiting, symmetric] refl] 1 s Awaiting
    show ?thesis by auto
  qed
next
  case (4 ev k es todo waiting returned st)
  show ?case
  proof (cases "find (\<lambda>w. fst w = k) waiting")
    case None
    with 4 show ?thesis by simp
  next
    case (Some t)
    obtain j n a where t: "t = (j, n, a)" by (cases t)
    obtain r st1 where f: "finish_tool n a st = (r, st1)" by (cases "finish_tool n a st")
    from finish_tool_keeps [of n a st] f obtain rs1 es1 where
      1: "results (ctx st1) = results (ctx st) @ rs1" "errors (ctx st1) = errors (ctx st) @ es1"
      by auto
    from "4.IH" (2) [OF Some [unfolded t] refl refl f [symmetric] ] 1 Some t f
    show ?thesis by auto
  qed
qed

lemma gather_keeps:
  "\<exists>rs es. results (ctx (snd (gather ev tasks st))) = results (ctx st) @ rs
        \<and> errors (ctx (snd (gather ev tasks st))) = errors (ctx st) @ es"
proof -
  let ?sched = "completion_order ev (world st) (length tasks)"
  obtain t1 w1 r1 s1 where
    r: "run_events ev ?sched (enumerate 0 tasks) [] [] st = (t1, w1, r1, s1)"
    by (metis prod_cases4)
  obtain r2 s2 where c: "complete_all w1 r1 s1 = (r2, s2)" by (cases "complete_all w1 r1 s1")
  obtain r3 s3 where q: "run_rest ev t1 r2 s2 = (r3, s3)" by (cases "run_rest ev t1 r2 s2")
  from run_events_keeps [of ev ?sched "enumerate 0 tasks" "[]" "[]" st] r obtain a1 b1 where
    1: "results (ctx s1) = results (ctx st) @ a1" "errors (ctx s1) = errors (ctx st) @ b1"
    by auto
  from complete_all_keeps [of w1 r1 s1] c obtain a2 b2 where
    2: "results (ctx s2) = results (ctx s1) @ a2" "errors (ctx s2) = errors (ctx s1) @ b2"
    by auto
  from run_rest_keeps [of ev t1 r2 s2] q obtain a3 b3 where
    3: "results (ctx s3) = results (ctx s2) @ a3" "errors (ctx s3) = errors (ctx s2) @ b3"
    by auto
  from r c q 1 2 3 show ?thesis by (simp add: gather_def wind_up_def)
qed

lemma files_env_check_status:
  "execute_tool files_env ''check_status'' [] st =
     (None,
      st\<lparr>logged := logged st @ [Executing ''check_status'' [],
                    ErrorExecuting ''check_status'' (Exn ''ConnectionError'' ''unreachable'')],
         ctx := add_error (ctx st)
                 [(''tool'', JStr ''check_status''), (''error'', JStr ''unreachable''),
                  (''type'', JStr ''ConnectionError'')]\<rparr>)"
  by (simp add: execute_tool_def registry_check_status fixture_defs)

text \<open>
  C6. Under the Parallel strategy, whatever the order in which the event loop starts the tasks
  and delivers their answers: the tools invoked for a batch are exactly the hints of its
  suggestions of type Retriever or Analyzer that carry a tool-name hint, in their order, and
  the other suggestions have no effect at all (the run is that of the batch without them).
  The returned batch is, in the order of the suggestions, the list of the results that
  \<open>execute_tool\<close> gives for these tools one by one, a failed invocation being absent from
  it; the state left is the one these calls leave, up to the order of the entries of the
  context and of the log. The results appended to the context are those of the batch, in the
  order of completion; for each failed invocation one entry naming its tool has been appended
  to the errors of the context, after the errors that were there.
\<close>

theorem parallel_runs_eligible_only:
  assumes run: "execute_parallel ev suggs st = (batch, st')"
  shows "batch = not_none (fst (one_by_one ev
                   (map (\<lambda>s. (the (toolNameHint s), or_empty (parameters s)))
                      (filter eligible_for_parallel suggs)) st))
       \<and> same_up_to_order st' (snd (one_by_one ev
                   (map (\<lambda>s. (the (toolNameHint s), or_empty (parameters s)))
                      (filter eligible_for_parallel suggs)) st))
       \<and> invoked (logged st') =
           invoked (logged st) @ map (\<lambda>s. the (toolNameHint s)) (filter eligible_for_parallel suggs)
       \<and> execute_parallel ev (filter eligible_for_parallel suggs) st = (batch, st')
       \<and> (\<exists>added. results (ctx st') = results (ctx st) @ added \<and> mset added = mset batch)
       \<and> (\<exists>es. errors (ctx st') = errors (ctx st) @ es
               \<and> length es + length batch = length (filter eligible_for_parallel suggs)
               \<and> (\<forall>e \<in> set es. \<exists>s \<in> set suggs. eligible_for_parallel s
                     \<and> map_of e ''tool'' = Some (JStr (the (toolNameHint s)))))"
proof (cases "parallel_tasks suggs = []")
  case True
  with run have "batch = []" "st' = st" by (simp_all add: execute_parallel_def)
  moreover from True have "filter eligible_for_parallel suggs = []"
    by (simp add: parallel_tasks_eligible)
  ultimately show ?thesis using run by (simp add: execute_parallel_def same_refl)
next
  case False
  let ?tasks = "map (\<lambda>s. (the (toolNameHint s), or_empty (parameters s)))
                  (filter eligible_for_parallel suggs)"
  have pt: "parallel_tasks suggs = ?tasks" by (rule parallel_tasks_eligible)
  obtain rs st1 where g: "gather ev (parallel_tasks suggs) st = (rs, st1)"
    by (cases "gather ev (parallel_tasks suggs) st")
  with run False have b: "batch = not_none rs" and s: "st' = st1"
    by (simp_all add: execute_parallel_def)
  obtain rs0 st0 where o: "one_by_one ev (parallel_tasks suggs) st = (rs0, st0)"
    by (cases "one_by_one ev (parallel_tasks suggs) st")
  from gather_as_one_by_one [of ev "parallel_tasks suggs" st] g o
  have rr: "rs = rs0" and sm: "same_up_to_order st1 st0" by simp_all
  have idem: "parallel_tasks (filter eligible_for_parallel suggs) = parallel_tasks suggs"
    by (simp add: parallel_tasks_eligible)
  from one_by_one_effect [OF o] obtain es0 where
      inv: "invoked (logged st0) = invoked (logged st) @ map fst (parallel_tasks suggs)"
      and res: "results (ctx st0) = results (ctx st) @ not_none rs0"
      and es0: "errors (ctx st0) = errors (ctx st) @ es0"
        "length es0 + length (not_none rs0) = length (parallel_tasks suggs)"
        "\<forall>e \<in> set es0. \<exists>t \<in> set (parallel_tasks suggs). map_of e ''tool'' = Some (JStr (fst t))"
    by blast
  from gather_keeps [of ev "parallel_tasks suggs" st] g obtain added es where
      k: "results (ctx st1) = results (ctx st) @ added" "errors (ctx st1) = errors (ctx st) @ es"
    by auto
  from sm res k have ma: "mset added = mset (not_none rs0)"
    by (simp add: same_up_to_order_def)
  from sm es0(1) k have me: "mset es = mset es0"
    by (simp add: same_up_to_order_def)
  have 1: "batch = not_none (fst (one_by_one ev ?tasks st))"
    using b rr o pt by simp
  have 2: "same_up_to_order st' (snd (one_by_one ev ?tasks st))"
    using sm s o pt by simp
  have 3: "invoked (logged st') =
           invoked (logged st) @ map (\<lambda>s. the (toolNameHint s)) (filter eligible_for_parallel suggs)"
    using sm inv s by (simp add: same_up_to_order_def parallel_tasks_eligible comp_def)
  have 4: "execute_parallel ev (filter eligible_for_parallel suggs) st = (batch, st')"
    using run by (simp add: execute_parallel_def idem)
  have 5: "\<exists>added. results (ctx st') = results (ctx st) @ added \<and> mset added = mset batch"
    using k(1) ma b rr s by auto
  have le: "length es = length es0" using me by (rule mset_eq_length)
  have se: "set es = set es0" using me by (rule mset_eq_setD)
  have "\<forall>e \<in> set es. \<exists>s \<in> set suggs. eligible_for_parallel s
                     \<and> map_of e ''tool'' = Some (JStr (the (toolNameHint s)))"
  proof
    fix e assume "e \<in> set es"
    with se es0(3) obtain t where "t \<in> set (parallel_tasks suggs)"
        "map_of e ''tool'' = Some (JStr (fst t))"
      by blast
    then show "\<exists>s \<in> set suggs. eligible_for_parallel s
                     \<and> map_of e ''tool'' = Some (JStr (the (toolNameHint s)))"
      by (auto simp: parallel_tasks_eligible)
  qed
  with k(2) le es0(2) b rr s
  have 6: "\<exists>es. errors (ctx st') = errors (ctx st) @ es
               \<and> length es + length batch = length (filter eligible_for_parallel suggs)
               \<and> (\<forall>e \<in> set es. \<exists>s \<in> set suggs. eligible_for_parallel s
                     \<and> map_of e ''tool'' = Some (JStr (the (toolNameHint s))))"
    by (auto simp: parallel_tasks_eligible)
  from 1 2 3 4 5 6 show ?thesis by blast
qed

theorem parallel_runs_eligible_only_witness:
  "execute_parallel second_first_env
      [suggestion RETRIEVER (Some ''list_files''), suggestion MODIFIER (Some ''merge_branches''),
       suggestion ANALYZER (Some ''check_status'')] start_state
     = ([list_files_result, status_result],
        start_state\<lparr>logged := [Executing ''list_files'' [], Executing ''check_status'' [] ],
           ctx := empty_context\<lparr>results := [status_result, list_files_result]\<rparr>\<rparr>)
   \<and> invoked (logged (snd (execute_parallel second_first_env
      [suggestion RETRIEVER (Some ''list_files''), suggestion MODIFIER (Some ''merge_branches''),
       suggestion ANALYZER (Some ''check_status'')] start_state)))
     = [''list_files'', ''check_status'']
   \<and> same_up_to_order
       (snd (execute_parallel second_first_env
          [suggestion RETRIEVER (Some ''list_files''), suggestion MODIFIER (Some ''merge_branches''),
           suggestion ANALYZER (Some ''check_status'')] start_state))
       (snd (one_by_one second_first_env [(''list_files'', []), (''check_status'', [])]
          start_state))"
proof -
  let ?suggs = "[suggestion RETRIEVER (Some ''list_files''),
                 suggestion MODIFIER (Some ''merge_branches''),
                 suggestion ANALYZER (Some ''check_status'')]"
  let ?st' = "start_state\<lparr>logged := [Executing ''list_files'' [], Executing ''check_status'' [] ],
           ctx := empty_context\<lparr>results := [status_result, list_files_result]\<rparr>\<rparr>"
  have val: "execute_parallel second_first_env ?suggs start_state
               = ([list_files_result, status_result], ?st')"
    by code_simp
  have el: "map (\<lambda>s. (the (toolNameHint s), or_empty (parameters s)))
              (filter eligible_for_parallel ?suggs) = [(''list_files'', []), (''check_status'', [])]"
    by (simp add: eligible_for_parallel_def suggestion_def)
  have el2: "map (\<lambda>s. the (toolNameHint s)) (filter eligible_for_parallel ?suggs)
               = [''list_files'', ''check_status'']"
    by (simp add: eligible_for_parallel_def suggestion_def)
  note t = parallel_runs_eligible_only [OF val]
  from t have a: "invoked (logged ?st') = invoked (logged start_state)
        @ map (\<lambda>s. the (toolNameHint s)) (filter eligible_for_parallel ?suggs)"
    by blast
  from t have b: "same_up_to_order ?st' (snd (one_by_one second_first_env
        (map (\<lambda>s. (the (toolNameHint s), or_empty (parameters s)))
           (filter eligible_for_parallel ?suggs)) start_state))"
    by blast
  from a have a': "invoked (logged ?st') = [''list_files'', ''check_status'']"
    unfolding el2 by (simp add: start_state_def)
  from b have b': "same_up_to_order ?st' (snd (one_by_one second_first_env
        [(''list_files'', []), (''check_status'', [])] start_state))"
    unfolding el .
  from val a' b' show ?thesis by (simp only: snd_conv simp_thms)
qed

lemma evaluate_condition_on_results:
  "evaluate_condition s c =
     (\<not> (toolType s = MODIFIER \<and> results c \<noteq> []
          \<and> \<not> requiresPostProcessing (metadata (last (results c)))))"
  by (simp add: evaluate_condition_def get_last_result_def)

lemma conditional_loop_append:
  "conditional_loop ev (xs @ ys) acc st =
     (case conditional_loop ev xs acc st of (acc1, st1) \<Rightarrow> conditional_loop ev ys acc1 st1)"
  by (induction xs arbitrary: acc st) (auto simp: Let_def split: prod.splits option.splits)

text \<open>
  C7. Under the Conditional strategy, take a suggestion with a tool-name hint at any place of
  a batch, the state \<open>st1\<close> in which the loop reaches it, and the outcome of
  \<open>execute_tool\<close> for its tool in that state. If its type is Validator, that outcome is
  what the loop does: the state after it and the result appended, if any. If its type is
  Modifier, the loop does nothing for it exactly when the context holds results and the last
  of them does not request post-processing; otherwise, also when the context holds no result
  yet, it does what \<open>execute_tool\<close> does. If its type is any other, it does what
  \<open>execute_tool\<close> does. Executing is never the same as skipping: the log then shows one
  more invocation, of the suggested tool.
\<close>

theorem conditional_policy:
  assumes hint: "toolNameHint s = Some h" "h \<noteq> []"
      and reach: "execute_conditional ev pre st = (acc1, st1)"
      and step: "execute_conditional ev (pre @ [s]) st = (acc2, st2)"
      and call: "execute_tool ev h (or_empty (parameters s)) st1 = (res, st1')"
  shows "(toolType s = VALIDATOR \<longrightarrow>
            st2 = st1' \<and> acc2 = acc1 @ (case res of None \<Rightarrow> [] | Some r \<Rightarrow> [r]))
       \<and> (toolType s = MODIFIER \<longrightarrow>
            (if results (ctx st1) \<noteq> []
                \<and> \<not> requiresPostProcessing (metadata (last (results (ctx st1))))
             then st2 = st1 \<and> acc2 = acc1
             else st2 = st1' \<and> acc2 = acc1 @ (case res of None \<Rightarrow> [] | Some r \<Rightarrow> [r])))
       \<and> (toolType s \<noteq> MODIFIER \<longrightarrow>
            st2 = st1' \<and> acc2 = acc1 @ (case res of None \<Rightarrow> [] | Some r \<Rightarrow> [r]))
       \<and> invoked (logged st1') = invoked (logged st1) @ [h]"
proof -
  from reach step have one: "conditional_loop ev [s] acc1 st1 = (acc2, st2)"
    by (simp add: execute_conditional_def conditional_loop_append)
  have inv: "invoked (logged st1') = invoked (logged st1) @ [h]"
    using execute_tool_effect [OF call] by simp
  show ?thesis
  proof (cases "toolType s = MODIFIER \<and> results (ctx st1) \<noteq> []
                \<and> \<not> requiresPostProcessing (metadata (last (results (ctx st1))))")
    case True
    with one hint inv show ?thesis by (auto simp: evaluate_condition_on_results)
  next
    case False
    with one hint call have "st2 = st1' \<and> acc2 = acc1 @ (case res of None \<Rightarrow> [] | Some r \<Rightarrow> [r])"
      by (auto simp: evaluate_condition_on_results split: option.splits)
    with False inv show ?thesis by auto
  qed
qed

theorem conditional_policy_witness:
  "execute_conditional files_env
      [suggestion RETRIEVER (Some ''list_files''), suggestion MODIFIER (Some ''merge_branches'')]
      start_state
   = execute_conditional files_env [suggestion RETRIEVER (Some ''list_files'')] start_state
   \<and> execute_conditional files_env
      [suggestion RETRIEVER (Some ''list_files''), suggestion MODIFIER (Some ''merge_branches''),
       suggestion VALIDATOR (Some ''check_status'')] start_state
     = ([list_files_result],
        start_state\<lparr>logged := [Executing ''list_files'' [], Executing ''check_status'' [],
                      ErrorExecuting ''check_status'' (Exn ''ConnectionError'' ''unreachable'')],
           ctx := empty_context\<lparr>results := [list_files_result],
                    errors := [ [(''tool'', JStr ''check_status''), (''error'', JStr ''unreachable''),
                               (''type'', JStr ''ConnectionError'')] ]\<rparr>\<rparr>)"
proof -
  let ?X = "suggestion RETRIEVER (Some ''list_files'')"
  let ?Y = "suggestion MODIFIER (Some ''merge_branches'')"
  let ?V = "suggestion VALIDATOR (Some ''check_status'')"
  let ?r1 = "execute_conditional files_env [?X] start_state"
  let ?r2 = "execute_conditional files_env ([?X] @ [?Y]) start_state"
  let ?r3 = "execute_conditional files_env ([?X, ?Y] @ [?V]) start_state"
  let ?st1 = "start_state\<lparr>logged := [Executing ''list_files'' [] ],
                 ctx := add_result empty_context list_files_result\<rparr>"
  have v1: "?r1 = ([list_files_result], ?st1)"
    by (simp add: execute_conditional_def evaluate_condition_def get_last_result_def
          files_env_list_files suggestion_def start_state_def empty_context_def)
  have lastt: "results (ctx ?st1) \<noteq> []
      \<and> \<not> requiresPostProcessing (metadata (last (results (ctx ?st1))))"
    by (simp add: add_result_def list_files_result_def sample_result_def)
  have hY: "toolNameHint ?Y = Some ''merge_branches''" and tY: "toolType ?Y = MODIFIER"
    by (simp_all add: suggestion_def)
  have hV: "toolNameHint ?V = Some ''check_status''" and tV: "toolType ?V = VALIDATOR"
    by (simp_all add: suggestion_def)
  have p2: "?r2 = (fst ?r2, snd ?r2)" and p3: "?r3 = (fst ?r3, snd ?r3)" by simp_all
  have cY: "execute_tool files_env ''merge_branches'' (or_empty (parameters ?Y)) ?st1
         = (fst (execute_tool files_env ''merge_branches'' (or_empty (parameters ?Y)) ?st1),
            snd (execute_tool files_env ''merge_branches'' (or_empty (parameters ?Y)) ?st1))"
    by simp
  from conditional_policy [OF hY _ v1 p2 cY] tY lastt
  have skip: "snd ?r2 = ?st1 \<and> fst ?r2 = [list_files_result]" by simp
  then have a: "?r2 = ?r1" by (simp add: prod_eq_iff v1)
  have reach2: "execute_conditional files_env [?X, ?Y] start_state = ([list_files_result], ?st1)"
    using a v1 by simp
  have cV: "execute_tool files_env ''check_status'' (or_empty (parameters ?V)) ?st1
         = (None, ?st1\<lparr>logged := logged ?st1 @ [Executing ''check_status'' [],
                    ErrorExecuting ''check_status'' (Exn ''ConnectionError'' ''unreachable'')],
             ctx := add_error (ctx ?st1)
                 [(''tool'', JStr ''check_status''), (''error'', JStr ''unreachable''),
                  (''type'', JStr ''ConnectionError'')]\<rparr>)"
    by (simp add: files_env_check_status suggestion_def)
  from conditional_policy [OF hV _ reach2 p3 cV] tV
  have b: "?r3 = ([list_files_result], ?st1\<lparr>logged := logged ?st1 @ [Executing ''check_status'' [],
                    ErrorExecuting ''check_status'' (Exn ''ConnectionError'' ''unreachable'')],
             ctx := add_error (ctx ?st1)
                 [(''tool'', JStr ''check_status''), (''error'', JStr ''unreachable''),
                  (''type'', JStr ''ConnectionError'')]\<rparr>)"
    by (simp add: prod_eq_iff)
  from a b show ?thesis
    by (simp add: start_state_def add_result_def add_error_def empty_context_def)
qed

subsection \<open>Workflow engine and orchestrator: unknown workflows\<close>

text \<open>
  C3, as the code has it. For a workflow name that is not registered, the engine's
  \<open>execute_workflow\<close> raises \<open>ValueError("Unknown workflow: ...")\<close> before any tool is
  executed and leaves the state as it was; the orchestrator's \<open>execute_workflow\<close>, which
  catches nothing, raises the same exception to its caller, with nothing logged and an empty
  context.
\<close>

theorem unknown_workflow_raises:
  assumes "map_of (workflows (workflow_engine orch)) workflow_name = None"
  shows "execute_workflow (workflow_engine orch) ev workflow_name initial_params st
           = (Inl (Exn ''ValueError'' (''Unknown workflow: '' @ workflow_name)), st)
       \<and> fst (orchestrator_execute_workflow orch ev workflow_name params user conversation lg w)
           = Inl (Exn ''ValueError'' (''Unknown workflow: '' @ workflow_name))
       \<and> logged (snd (orchestrator_execute_workflow orch ev workflow_name params user
                         conversation lg w)) = lg
       \<and> results (ctx (snd (orchestrator_execute_workflow orch ev workflow_name params user
                         conversation lg w))) = []
       \<and> errors (ctx (snd (orchestrator_execute_workflow orch ev workflow_name params user
                         conversation lg w))) = []"
  using assms
  by (auto simp: execute_workflow_def orchestrator_execute_workflow_def new_context_def
        split: prod.splits)

lemma deploy_unregistered:
  "map_of (workflows (workflow_engine ToolOrchestrator_init)) ''deploy_everything'' = None"
  by (simp add: ToolOrchestrator_init_def WorkflowEngine_init_def define_workflows_def)

theorem unknown_workflow_raises_witness:
  "map_of (workflows (workflow_engine ToolOrchestrator_init)) ''deploy_everything'' = None
   \<and> execute_workflow (workflow_engine ToolOrchestrator_init) files_env ''deploy_everything'' []
         start_state
       = (Inl (Exn ''ValueError'' ''Unknown workflow: deploy_everything''), start_state)
   \<and> logged (snd (orchestrator_execute_workflow ToolOrchestrator_init files_env
                     ''deploy_everything'' [] ''alice'' (Some ''conv-1'') [] ())) = []"
  using unknown_workflow_raises [OF deploy_unregistered, of files_env "[]" start_state
          "[]" "''alice''" "Some ''conv-1''" "[]" "()"]
  by (simp add: deploy_unregistered)

text \<open>The caller of the orchestrator gets the exception, not a report.\<close>

theorem unknown_workflow_counterexample:
  "fst (orchestrator_execute_workflow ToolOrchestrator_init files_env ''deploy_everything'' []
            ''alice'' (Some ''conv-1'') [] ())
     = Inl (Exn ''ValueError'' ''Unknown workflow: deploy_everything'')"
  by (simp add: orchestrator_execute_workflow_def execute_workflow_def new_context_def
        deploy_unregistered split: prod.splits)

subsection \<open>Workflow engine: failure of a required step\<close>

lemma registry_create_branch:
  "get_intent_by_name ''create_branch'' =
     Some \<lparr>intent_name = ''create_branch'', endpoint = ''/repos/create-branch'',
           http_method = ''POST'', tool_type = CREATOR\<rparr>"
  by (simp add: get_intent_by_name_def INTENT_CLASSIFICATIONS_def mk_intent_def)

lemma registry_add_multiple_files:
  "get_intent_by_name ''add_multiple_files'' =
     Some \<lparr>intent_name = ''add_multiple_files'', endpoint = ''/repos/add-files'',
           http_method = ''POST'', tool_type = CREATOR\<rparr>"
  by (simp add: get_intent_by_name_def INTENT_CLASSIFICATIONS_def mk_intent_def)

lemma branch_env_create_branch:
  "execute_tool branch_env ''create_branch'' p st =
     (Some create_branch_result,
      st\<lparr>logged := logged st @ [Executing ''create_branch'' p],
         ctx := add_result (ctx st) create_branch_result\<rparr>)"
  by (simp add: execute_tool_def registry_create_branch branch_env_def fixture_defs)

lemma branch_env_add_multiple_files:
  "execute_tool branch_env ''add_multiple_files'' p st =
     (None,
      st\<lparr>logged := logged st @ [Executing ''add_multiple_files'' p,
                    ErrorExecuting ''add_multiple_files'' (Exn ''ConnectionError'' ''unreachable'')],
         ctx := add_error (ctx st)
                 [(''tool'', JStr ''add_multiple_files''), (''error'', JStr ''unreachable''),
                  (''type'', JStr ''ConnectionError'')]\<rparr>)"
  by (simp add: execute_tool_def registry_add_multiple_files branch_env_def fixture_defs)

text \<open>
  C8, as the code has it. Let a workflow have the steps A, B, C. If A succeeds with result
  \<open>rA\<close>, merging the payload of \<open>rA\<close> into the parameters does not raise, and B, which
  is required, fails, then \<open>execute_workflow\<close> returns at once the report with status
  \<open>failed\<close>, \<open>failed_step\<close> the tool of B, \<open>completed_steps\<close> the list holding the
  \<open>toolName\<close> field of \<open>rA\<close> (the name the transport gave the result, not the name of
  the step), and the whole error list of the context; A and B are the only tools invoked, so
  C is not attempted.
\<close>

theorem required_step_failure_report:
  assumes wf: "map_of (workflows eng) name = Some [A, B, C]"
      and a: "execute_tool ev (tool A) (dict_update params (or_empty (step_params A))) st
                = (Some rA, st1)"
      and m: "merge_payload ev params rA = Inr params1"
      and b: "execute_tool ev (tool B) (dict_update params1 (or_empty (step_params B))) st1
                = (None, st2)"
      and req: "required B \<noteq> Some False"
  shows "execute_workflow eng ev name params st
           = (Inr (FailedReport name ''failed'' (tool B) [toolName rA] (errors (ctx st2))), st2)
       \<and> invoked (logged st2) = invoked (logged st) @ [tool A, tool B]"
proof -
  from req have r: "(case required B of None \<Rightarrow> True | Some x \<Rightarrow> x)"
    by (cases "required B") auto
  have "execute_workflow eng ev name params st
           = (Inr (FailedReport name ''failed'' (tool B) [toolName rA] (errors (ctx st2))), st2)"
    using wf a m b r by (simp add: execute_workflow_def Let_def)
  moreover have "invoked (logged st2) = invoked (logged st) @ [tool A, tool B]"
    using execute_tool_effect [OF a] execute_tool_effect [OF b] by simp
  ultimately show ?thesis by simp
qed

theorem required_step_failure_report_witness:
  "fst (execute_workflow three_step_engine branch_env ''branch_and_commit'' [] start_state)
     = Inr (FailedReport ''branch_and_commit'' ''failed'' ''add_multiple_files''
             [toolName create_branch_result]
             [ [(''tool'', JStr ''add_multiple_files''), (''error'', JStr ''unreachable''),
               (''type'', JStr ''ConnectionError'')] ])
   \<and> invoked (logged (snd (execute_workflow three_step_engine branch_env ''branch_and_commit'' []
                             start_state)))
     = [''create_branch'', ''add_multiple_files'']"
proof -
  let ?A = "step ''create_branch'' True"
  let ?B = "step ''add_multiple_files'' True"
  let ?C = "step ''commit_changes'' True"
  let ?p1 = "[(''branch_name'', JStr ''feature''), (''message'', JStr ''created'')]"
  let ?st1 = "start_state\<lparr>logged := logged start_state @ [Executing ''create_branch'' [] ],
         ctx := add_result (ctx start_state) create_branch_result\<rparr>"
  let ?st2 = "?st1\<lparr>logged := logged ?st1 @ [Executing ''add_multiple_files'' ?p1,
                    ErrorExecuting ''add_multiple_files'' (Exn ''ConnectionError'' ''unreachable'')],
         ctx := add_error (ctx ?st1)
                 [(''tool'', JStr ''add_multiple_files''), (''error'', JStr ''unreachable''),
                  (''type'', JStr ''ConnectionError'')]\<rparr>"
  have wf: "map_of (workflows three_step_engine) ''branch_and_commit'' = Some [?A, ?B, ?C]"
    by (simp add: three_step_engine_def)
  have a: "execute_tool branch_env (tool ?A) (dict_update [] (or_empty (step_params ?A)))
             start_state = (Some create_branch_result, ?st1)"
    by (simp add: step_def dict_update_def branch_env_create_branch)
  have m: "merge_payload branch_env [] create_branch_result = Inr ?p1"
    by (simp add: merge_payload_def create_branch_result_def sample_result_def dict_update_def)
  have b: "execute_tool branch_env (tool ?B) (dict_update ?p1 (or_empty (step_params ?B))) ?st1
             = (None, ?st2)"
    by (simp add: step_def dict_update_def branch_env_add_multiple_files)
  have req: "required ?B \<noteq> Some False" by (simp add: step_def)
  from required_step_failure_report [OF wf a m b req]
  show ?thesis
    by (simp add: step_def start_state_def empty_context_def add_error_def add_result_def)
qed

text \<open>The first step is \<open>create_branch\<close>, and the report lists
  \<open>create_local_branch\<close>, the name carried by the result.\<close>

theorem completed_steps_counterexample:
  "map_of (workflows three_step_engine) ''branch_and_commit''
     = Some [step ''create_branch'' True, step ''add_multiple_files'' True,
             step ''commit_changes'' True]
   \<and> fst (execute_workflow three_step_engine branch_env ''branch_and_commit'' [] start_state)
     = Inr (FailedReport ''branch_and_commit'' ''failed'' ''add_multiple_files''
             [''create_local_branch'']
             [ [(''tool'', JStr ''add_multiple_files''), (''error'', JStr ''unreachable''),
               (''type'', JStr ''ConnectionError'')] ])
   \<and> [''create_local_branch''] \<noteq> [''create_branch'']"
  by (simp add: execute_workflow_def three_step_engine_def step_def dict_update_def Let_def
        branch_env_create_branch branch_env_add_multiple_files merge_payload_def
        create_branch_result_def sample_result_def start_state_def empty_context_def
        add_error_def add_result_def)

subsection \<open>Orchestrator: the initial result in the context\<close>

lemma classify_git_status: "classify_intent ''git status'' = get_intent_by_name ''check_status''"
  by code_simp

text \<open>
  C2. Every call of \<open>execute_tool\<close> appends one result or one error entry (lemma
  \<open>execute_tool_effect\<close>). The claim that the initial result then occurs once in the
  results of the context fails on the code: for the request \<open>git status\<close>, answered with a
  result that requests post-processing, \<open>execute_tool\<close> appends the result and
  \<open>execute_chain\<close> appends it again. Two tools are invoked, one succeeds, and the context
  holds the initial result twice, so that \<open>total_tools\<close> is 2.
\<close>

theorem initial_result_recorded_twice:
  "results (ctx (snd (execute_request ToolOrchestrator_init status_env ''git status'' ''alice''
       (Some ''conv-1'') [] ()))) = [status_result, status_result]
   \<and> invoked (logged (snd (execute_request ToolOrchestrator_init status_env ''git status''
       ''alice'' (Some ''conv-1'') [] ()))) = [''check_status'', ''commit_changes'']
   \<and> length (errors (ctx (snd (execute_request ToolOrchestrator_init status_env ''git status''
       ''alice'' (Some ''conv-1'') [] ())))) = 1
   \<and> total_tools (fst (execute_request ToolOrchestrator_init status_env ''git status'' ''alice''
       (Some ''conv-1'') [] ())) = 2"
  by code_simp

subsection \<open>Serialisation of results\<close>

lemma v_ToolType_value: "v_ToolType (JInt (ToolType_value t)) = Inr t"
  by (cases t) simp_all

lemma validate_dump_UserContextInfo:
  "validate_UserContextInfo (dump_UserContextInfo u) = Inr u"
  by (simp add: dump_UserContextInfo_def and_then_def default_field_def)

lemma v_items_str: "v_items v_str (map JStr xs) = Inr xs"
  by (induction xs) simp_all

lemma validate_dump_ContentSummary:
  "validate_ContentSummary (dump_ContentSummary c) = Inr c"
  by (simp add: dump_ContentSummary_def and_then_def default_field_def v_items_str)

lemma validate_dump_SuggestedToolReference:
  "validate_SuggestedToolReference (dump_SuggestedToolReference s) = Inr s"
proof (cases s)
  case (fields t h r p l)
  then show ?thesis
    by (cases h; cases r; cases p; cases l)
       (simp_all add: dump_SuggestedToolReference_def and_then_def default_field_def
          required_field_def v_ToolType_value del: v_ToolType.simps)
qed

lemma v_items_suggested:
  "v_items validate_SuggestedToolReference (map dump_SuggestedToolReference xs) = Inr xs"
  by (induction xs) (simp_all add: validate_dump_SuggestedToolReference)

lemma dump_ContentSummary_not_null: "dump_ContentSummary c \<noteq> JNull"
  by (simp add: dump_ContentSummary_def)

lemma v_optional_ContentSummary:
  "v_optional validate_ContentSummary (dump_ContentSummary c) = Inr (Some c)"
  by (simp add: dump_ContentSummary_def and_then_def default_field_def v_items_str)

lemma validate_dump_ToolMetadata:
  "validate_ToolMetadata (dump_ToolMetadata m) = Inr m"
proof (cases m)
  case (fields dt ds i d a rpp st cs c)
  then show ?thesis
    by (cases cs)
       (simp_all add: dump_ToolMetadata_def and_then_def default_field_def
          required_field_def v_items_suggested v_optional_ContentSummary)
qed

lemma v_optional_UserContextInfo:
  "v_optional validate_UserContextInfo (dump_UserContextInfo u) = Inr (Some u)"
  by (simp add: dump_UserContextInfo_def and_then_def default_field_def)

text \<open>A result whose payload is not \<open>None\<close> is read back as it was, provided the text
  of its timestamp is read back as the timestamp.\<close>

lemma round_trip_with_payload:
  assumes "parse_datetime codec (isoformat codec (timestamp r)) = Some (timestamp r)"
      and "payload r \<noteq> JNull"
  shows "from_json codec fresh_id now (to_json codec r) = Inr r"
proof (cases r)
  case (fields rid name ts cid mid uc md p si pid)
  with assms(2) have p: "unless_null p = Some p"
    by (cases p) simp_all
  from fields assms(1) have t: "parse_datetime codec (isoformat codec ts) = Some ts"
    by simp
  from fields show ?thesis
    by (cases cid; cases mid; cases uc; cases pid)
       (simp_all add: from_json_def to_json_def and_then_def default_field_def
          required_field_def validate_dump_ToolMetadata v_optional_UserContextInfo p t)
qed

text \<open>
  C9. The claim that every result is read back from its JSON document fails on the code for a
  result whose payload is \<open>None\<close>: \<open>to_json\<close> excludes the fields that are \<open>None\<close>,
  the payload among them, and \<open>from_json\<close> rejects the document, since the class declares
  the payload as required.
\<close>

theorem none_payload_round_trip_fails:
  "payload empty_payload_result = JNull
   \<and> map_of (case to_json epoch_codec empty_payload_result of JObj kvs \<Rightarrow> kvs) ''payload'' = None
   \<and> from_json epoch_codec ''00000000-0000-4000-8000-000000000000'' 0
         (to_json epoch_codec empty_payload_result)
       = Inl (Exn ''ValidationError'' ''payload: Field required'')"
  by (simp add: from_json_def to_json_def empty_payload_result_def sample_result_def
        epoch_codec_def dump_ToolMetadata_def dump_UserContextInfo_def and_then_def
        required_field_def default_field_def)

end
